theory Spec2Isabelle
  imports Complex_Main
begin

section \<open>Status vocabulary and rule identity\<close>

text \<open>
  The status tokens of \<^verbatim>\<open>constants.py\<close> (\<^verbatim>\<open>c.currentlyRatedHelpful\<close>,
  \<^verbatim>\<open>c.currentlyRatedNotHelpful\<close>, \<^verbatim>\<open>c.needsMoreRatings\<close>, \<^verbatim>\<open>c.firmReject\<close>).
  A status column is a column of Python strings, so any other string can stand in it:
  \<open>OtherStatus\<close>. A missing value (NaN) is \<open>None\<close> of \<open>status option\<close>.
\<close>

datatype status = CRH | CRNH | NMR | FIRM_REJECT | OtherStatus string

datatype classification = SAYS_MISLEADING | SAYS_NOT_MISLEADING

text \<open>\<^verbatim>\<open>RuleAndVersion = namedtuple("RuleAndVersion", ["ruleName", "ruleVersion", "lockingEnabled"])\<close>\<close>

record RuleAndVersion =
  ruleName :: string
  ruleVersion :: string
  lockingEnabled :: bool

text \<open>\<^verbatim>\<open>class RuleID(Enum)\<close>, member by member.\<close>

datatype RuleID =
    INITIAL_NMR | GENERAL_CRH | GENERAL_CRNH | UCB_CRNH | TAG_OUTLIER | ELEVATED_CRH
  | NM_CRNH | GENERAL_CRH_INERTIA | ELEVATED_CRH_INERTIA | INCORRECT_OUTLIER
  | LOW_DILIGENCE | LARGE_FACTOR | LOW_INTERCEPT
  | META_INITIAL_NMR | EXPANSION_MODEL | EXPANSION_PLUS_MODEL | CORE_MODEL | COVERAGE_MODEL
  | GROUP_MODEL_1 | GROUP_MODEL_2 | GROUP_MODEL_3 | GROUP_MODEL_4 | GROUP_MODEL_5
  | GROUP_MODEL_6 | GROUP_MODEL_7 | GROUP_MODEL_8 | GROUP_MODEL_9 | GROUP_MODEL_10
  | GROUP_MODEL_11 | GROUP_MODEL_12 | GROUP_MODEL_13 | GROUP_MODEL_14
  | TOPIC_MODEL_1 | TOPIC_MODEL_2 | TOPIC_MODEL_3 | MULTI_GROUP_MODEL_1
  | INSUFFICIENT_EXPLANATION | SCORING_DRIFT_GUARD | NMR_DUE_TO_MIN_STABLE_CRH_TIME

definition rav :: "string \<Rightarrow> string \<Rightarrow> bool \<Rightarrow> RuleAndVersion" where
  "rav n v l = \<lparr>ruleName = n, ruleVersion = v, lockingEnabled = l\<rparr>"

fun rule_value :: "RuleID \<Rightarrow> RuleAndVersion" where
  "rule_value INITIAL_NMR = rav ''InitialNMR'' ''1.0'' False"
| "rule_value GENERAL_CRH = rav ''GeneralCRH'' ''1.0'' False"
| "rule_value GENERAL_CRNH = rav ''GeneralCRNH'' ''1.0'' False"
| "rule_value UCB_CRNH = rav ''UcbCRNH'' ''1.0'' False"
| "rule_value TAG_OUTLIER = rav ''TagFilter'' ''1.0'' False"
| "rule_value ELEVATED_CRH = rav ''CRHSuperThreshold'' ''1.0'' False"
| "rule_value NM_CRNH = rav ''NmCRNH'' ''1.0'' False"
| "rule_value GENERAL_CRH_INERTIA = rav ''GeneralCRHInertia'' ''1.0'' False"
| "rule_value ELEVATED_CRH_INERTIA = rav ''ElevatedCRHInertia'' ''1.0'' False"
| "rule_value INCORRECT_OUTLIER = rav ''FilterIncorrect'' ''1.0'' False"
| "rule_value LOW_DILIGENCE = rav ''FilterLowDiligence'' ''1.0'' False"
| "rule_value LARGE_FACTOR = rav ''FilterLargeFactor'' ''1.0'' False"
| "rule_value LOW_INTERCEPT = rav ''RejectLowIntercept'' ''1.0'' False"
| "rule_value META_INITIAL_NMR = rav ''MetaInitialNMR'' ''1.0'' False"
| "rule_value EXPANSION_MODEL = rav ''ExpansionModel'' ''1.1'' False"
| "rule_value EXPANSION_PLUS_MODEL = rav ''ExpansionPlusModel'' ''1.1'' False"
| "rule_value CORE_MODEL = rav ''CoreModel'' ''1.1'' True"
| "rule_value COVERAGE_MODEL = rav ''CoverageModel'' ''1.1'' False"
| "rule_value GROUP_MODEL_1 = rav ''GroupModel01'' ''1.1'' True"
| "rule_value GROUP_MODEL_2 = rav ''GroupModel02'' ''1.1'' True"
| "rule_value GROUP_MODEL_3 = rav ''GroupModel03'' ''1.1'' True"
| "rule_value GROUP_MODEL_4 = rav ''GroupModel04'' ''1.1'' False"
| "rule_value GROUP_MODEL_5 = rav ''GroupModel05'' ''1.1'' False"
| "rule_value GROUP_MODEL_6 = rav ''GroupModel06'' ''1.1'' True"
| "rule_value GROUP_MODEL_7 = rav ''GroupModel07'' ''1.1'' False"
| "rule_value GROUP_MODEL_8 = rav ''GroupModel08'' ''1.1'' True"
| "rule_value GROUP_MODEL_9 = rav ''GroupModel09'' ''1.1'' True"
| "rule_value GROUP_MODEL_10 = rav ''GroupModel10'' ''1.1'' True"
| "rule_value GROUP_MODEL_11 = rav ''GroupModel11'' ''1.1'' True"
| "rule_value GROUP_MODEL_12 = rav ''GroupModel12'' ''1.1'' False"
| "rule_value GROUP_MODEL_13 = rav ''GroupModel13'' ''1.1'' True"
| "rule_value GROUP_MODEL_14 = rav ''GroupModel14'' ''1.1'' True"
| "rule_value TOPIC_MODEL_1 = rav ''TopicModel01'' ''1.0'' False"
| "rule_value TOPIC_MODEL_2 = rav ''TopicModel02'' ''1.0'' False"
| "rule_value TOPIC_MODEL_3 = rav ''TopicModel03'' ''1.0'' False"
| "rule_value MULTI_GROUP_MODEL_1 = rav ''MultiGroupModel01'' ''1.0'' False"
| "rule_value INSUFFICIENT_EXPLANATION = rav ''InsufficientExplanation'' ''1.0'' True"
| "rule_value SCORING_DRIFT_GUARD = rav ''ScoringDriftGuard'' ''1.0'' False"
| "rule_value NMR_DUE_TO_MIN_STABLE_CRH_TIME = rav ''NmrDueToMinStableCrhTime'' ''1.0'' False"

text \<open>\<^verbatim>\<open>RuleID.get_name\<close>: \<^verbatim>\<open>f"{self.value.ruleName} (v{self.value.ruleVersion})"\<close>.\<close>

definition get_name :: "RuleID \<Rightarrow> string" where
  "get_name r = ruleName (rule_value r) @ '' (v'' @ ruleVersion (rule_value r) @ '')''"

section \<open>Tables\<close>

text \<open>
  One row of \<^verbatim>\<open>noteStats\<close>, with the columns the rules below read. A float or
  nullable column is an \<open>option\<close>: \<open>None\<close> is NaN, and every comparison with NaN is
  false, as in pandas. Intercepts and factors are finite floats, compared only with
  thresholds, and are modelled as reals. \<open>tagCounts\<close> are the per-tag rating counts the
  top-two-tags selector reads; \<open>adjusted\<close> and \<open>adjusted_ratio\<close> hold, per tag, the columns
  \<^verbatim>\<open><tag>_adjusted\<close> and \<^verbatim>\<open><tag>_adjusted_ratio\<close> (a tag without an entry is NaN).
\<close>

record note_row =
  noteId :: int
  classification :: "classification option"
  internalNoteIntercept :: "real option"
  coreNoteIntercept :: "real option"
  coreRatingStatus :: "status option"
  expansionNoteIntercept :: "real option"
  expansionRatingStatus :: "status option"
  groupRatingStatus :: "status option"
  modelingGroup :: "int option"
  currentLabel :: "status option"
  timestampMillisOfNmrDueToMinStableCrhTime :: "int option"
  firstTag :: "string option"
  secondTag :: "string option"
  tagCounts :: "(string \<times> int) list"
  internalNoteFactor1 :: "real option"
  lowDiligenceNoteIntercept :: "real option"
  numRatings :: "int option"
  notHelpfulIncorrect_interval :: "int option"
  num_voters_interval :: "int option"
  tf_idf_incorrect_interval :: "real option"
  topicNoteIntercept :: "real option"
  topicNoteFactor1 :: "real option"
  topicNoteConfident :: bool
  noteTopic :: "string option"
  adjusted :: "(string \<times> real) list"
  adjusted_ratio :: "(string \<times> real) list"

text \<open>A cell of a column that a rule adds to the output.\<close>

datatype cell = NaN | IntCell int | StrCell string | StatusCell status

text \<open>
  A DataFrame keyed on \<^verbatim>\<open>noteId\<close>: \<open>cols\<close> are the names of its other columns and
  each row is the key with one cell per column of \<open>cols\<close>.
\<close>

record frame =
  cols :: "string list"
  rows :: "(int \<times> cell list) list"

type_synonym labels = "(int \<times> status) list"

datatype error =
    DependencyViolation
  | DuplicateRule
  | ExtrasKeyMismatch
  | SharedExtrasColumn
  | LabelsCoverage
  | RulesCoverage
  | ExtrasOutsideInput
  | RowCountMismatch
  | StatusAssertion
  | DuplicateRows
  | KeyError
  | ExpectedMaxViolation

text \<open>
  \<^verbatim>\<open>class ScoringRule(ABC)\<close>: the rule's identifier, its dependencies and the abstract
  method \<^verbatim>\<open>score_notes(noteStats, currentLabels, statusColumn)\<close>. The status column is
  the second component of a label, so its name is no argument here. A Python rule can
  assign to the \<^verbatim>\<open>noteStats\<close> object it is handed, so the method also returns the
  table as the rule leaves it; a raised exception is \<open>Inl\<close>.
\<close>

record scoring_rule =
  ruleID :: RuleID
  dependencies :: "RuleID set"
  score_notes :: "note_row list \<Rightarrow> labels \<Rightarrow> error + (note_row list \<times> labels \<times> frame option)"

text \<open>\<^verbatim>\<open>ScoringRule.check_dependencies\<close>: \<^verbatim>\<open>assert not (self._dependencies - priorRules)\<close>.\<close>

definition check_dependencies :: "scoring_rule \<Rightarrow> RuleID set \<Rightarrow> error + unit" where
  "check_dependencies r priorRules =
     (if dependencies r - priorRules = {} then Inr () else Inl DependencyViolation)"

subsection \<open>The pandas operations of the driver\<close>

text \<open>\<^verbatim>\<open>df.groupby(noteId).tail(1)\<close>: the last row of every key, in the order of the rows.\<close>

fun groupby_tail1 :: "(int \<times> 'a) list \<Rightarrow> (int \<times> 'a) list" where
  "groupby_tail1 [] = []"
| "groupby_tail1 (x # xs) =
     (if fst x \<in> set (map fst xs) then groupby_tail1 xs else x # groupby_tail1 xs)"

text \<open>
  \<^verbatim>\<open>df.groupby(noteId).aggregate(list).reset_index()\<close>: one row per key, keys ascending,
  with the values of the key in the order of the rows.
\<close>

definition groupby_list :: "(int \<times> 'a) list \<Rightarrow> (int \<times> 'a list) list" where
  "groupby_list xs =
     map (\<lambda>k. (k, map snd (filter (\<lambda>p. fst p = k) xs))) (sort (remdups (map fst xs)))"

text \<open>\<^verbatim>\<open>",".join(xs)\<close>\<close>

fun str_join :: "string \<Rightarrow> string list \<Rightarrow> string" where
  "str_join sep [] = []"
| "str_join sep [x] = x"
| "str_join sep (x # y # ys) = x @ sep @ str_join sep (y # ys)"

text \<open>\<^verbatim>\<open>left.merge(right, on=noteId, how="inner")\<close>, the left rows keeping their order.\<close>

definition merge_inner :: "('a \<Rightarrow> int) \<Rightarrow> 'a list \<Rightarrow> (int \<times> 'b) list \<Rightarrow> ('a \<times> 'b) list" where
  "merge_inner key xs ys =
     concat (map (\<lambda>x. map (\<lambda>y. (x, snd y)) (filter (\<lambda>y. fst y = key x) ys)) xs)"

text \<open>\<^verbatim>\<open>left.merge(right, on=noteId, how="left")\<close>: a left row with no match is kept once.\<close>

definition merge_left :: "('a \<Rightarrow> int) \<Rightarrow> 'a list \<Rightarrow> (int \<times> 'b) list \<Rightarrow> ('a \<times> 'b option) list" where
  "merge_left key xs ys =
     concat (map (\<lambda>x. case filter (\<lambda>y. fst y = key x) ys of
                         [] \<Rightarrow> [(x, None)]
                       | m # ms \<Rightarrow> map (\<lambda>y. (x, Some (snd y))) (m # ms)) xs)"

text \<open>
  \<^verbatim>\<open>a.merge(b, on=noteId, how="outer")\<close>: the union of the keys, ascending; a key
  missing on one side gets NaN in that side's columns.
\<close>

definition side_rows :: "frame \<Rightarrow> int \<Rightarrow> cell list list" where
  "side_rows f k =
     (case filter (\<lambda>r. fst r = k) (rows f) of
        [] \<Rightarrow> [replicate (length (cols f)) NaN]
      | m # ms \<Rightarrow> map snd (m # ms))"

definition merge_outer :: "frame \<Rightarrow> frame \<Rightarrow> frame" where
  "merge_outer a b =
     \<lparr>cols = cols a @ cols b,
      rows = concat (map (\<lambda>k. concat (map (\<lambda>x. map (\<lambda>y. (k, x @ y)) (side_rows b k)) (side_rows a k)))
                      (sort (remdups (map fst (rows a) @ map fst (rows b)))))\<rparr>"

section \<open>The rule engine\<close>

text \<open>The accumulators of \<^verbatim>\<open>apply_scoring_rules\<close> and the table the rules are handed.\<close>

record engine_state =
  ruleIDs :: "RuleID set"
  noteStats :: "note_row list"
  noteLabels :: labels
  noteRules :: "(int \<times> string) list"
  noteColumns :: frame

text \<open>The body of \<^verbatim>\<open>for rule in rules\<close>.\<close>

definition apply_rule :: "engine_state \<Rightarrow> scoring_rule \<Rightarrow> error + engine_state" where
  "apply_rule st rule =
     (case check_dependencies rule (ruleIDs st) of
        Inl e \<Rightarrow> Inl e
      | Inr _ \<Rightarrow>
          if ruleID rule \<in> ruleIDs st then Inl DuplicateRule
          else
            (case score_notes rule (noteStats st) (noteLabels st) of
               Inl e \<Rightarrow> Inl e
             | Inr (ns, noteStatusUpdates, additionalColumns) \<Rightarrow>
                 if (case additionalColumns of
                       None \<Rightarrow> False
                     | Some ac \<Rightarrow> ruleID rule \<noteq> NMR_DUE_TO_MIN_STABLE_CRH_TIME \<and>
                         set (map fst noteStatusUpdates) \<noteq> set (map fst (rows ac)))
                 then Inl ExtrasKeyMismatch
                 else
                   (let st' = st\<lparr>ruleIDs := insert (ruleID rule) (ruleIDs st),
                                 noteStats := ns,
                                 noteLabels := groupby_tail1 (noteLabels st @ noteStatusUpdates),
                                 noteRules := noteRules st @
                                   map (\<lambda>u. (fst u, get_name (ruleID rule))) noteStatusUpdates\<rparr>
                    in case additionalColumns of
                         None \<Rightarrow> Inr st'
                       | Some ac \<Rightarrow>
                           if set (cols (noteColumns st)) \<inter> set (cols ac) \<noteq> {}
                           then Inl SharedExtrasColumn
                           else Inr (st'\<lparr>noteColumns := merge_outer (noteColumns st) ac\<rparr>))))"

fun run_rules :: "engine_state \<Rightarrow> scoring_rule list \<Rightarrow> error + engine_state" where
  "run_rules st [] = Inr st"
| "run_rules st (rule # rules) =
     (case apply_rule st rule of Inl e \<Rightarrow> Inl e | Inr st' \<Rightarrow> run_rules st' rules)"

text \<open>One row of \<^verbatim>\<open>scoredNotes\<close>.\<close>

record scored_note =
  stats :: note_row
  ratingStatus :: status
  activeRules :: string
  decidedBy :: "string option"
  extras :: "cell list option"
  currentlyRatedHelpfulBool :: bool
  currentlyRatedNotHelpfulBool :: bool
  awaitingMoreRatingsBool :: bool

definition scored_row ::
  "((note_row \<times> status) \<times> (string \<times> string option)) \<times> cell list option \<Rightarrow> scored_note" where
  "scored_row r =
     (case r of (((n, s), (ar, db)), ex) \<Rightarrow>
        \<lparr>stats = n, ratingStatus = s, activeRules = ar, decidedBy = db, extras = ex,
         currentlyRatedHelpfulBool = (s = CRH),
         currentlyRatedNotHelpfulBool = (s = CRNH),
         awaitingMoreRatingsBool = (s = NMR)\<rparr>)"

text \<open>The block after the loop: condense \<^verbatim>\<open>noteRules\<close>, validate, merge.\<close>

definition condense :: "bool \<Rightarrow> (int \<times> string) list \<Rightarrow> (int \<times> string \<times> string option) list" where
  "condense decidedByColumn nr =
     map (\<lambda>(n, rs). (n, str_join '','' rs, if decidedByColumn then Some (last rs) else None))
       (groupby_list nr)"

definition finalize :: "bool \<Rightarrow> engine_state \<Rightarrow> error + scored_note list" where
  "finalize decidedByColumn st =
     (let nr = condense decidedByColumn (noteRules st);
          ids = set (map noteId (noteStats st))
      in if ids \<noteq> set (map fst (noteLabels st)) then Inl LabelsCoverage
         else if ids \<noteq> set (map fst nr) then Inl RulesCoverage
         else if \<not> set (map fst (rows (noteColumns st))) \<subseteq> ids then Inl ExtrasOutsideInput
         else
           (let scoredNotes =
                  merge_left (\<lambda>r. noteId (fst (fst r)))
                    (merge_inner (\<lambda>r. noteId (fst r))
                       (merge_inner noteId (noteStats st) (noteLabels st)) nr)
                    (rows (noteColumns st))
            in if length scoredNotes \<noteq> length (noteStats st) then Inl RowCountMismatch
               else Inr (map scored_row scoredNotes)))"

definition initial_state :: "note_row list \<Rightarrow> engine_state" where
  "initial_state ns =
     \<lparr>ruleIDs = {}, noteStats = ns, noteLabels = [], noteRules = [],
      noteColumns = \<lparr>cols = [], rows = []\<rparr>\<rparr>"

definition apply_scoring_rules :: "note_row list \<Rightarrow> scoring_rule list \<Rightarrow> bool \<Rightarrow> error + scored_note list" where
  "apply_scoring_rules ns rules decidedByColumn =
     (case run_rules (initial_state ns) rules of
        Inl e \<Rightarrow> Inl e
      | Inr st \<Rightarrow> finalize decidedByColumn st)"

section \<open>The rules\<close>

type_synonym rule_result = "error + (note_row list \<times> labels \<times> frame option)"

text \<open>Comparisons of a nullable numeric column with a threshold: NaN compares false.\<close>

definition col_gt :: "('a::linorder) option \<Rightarrow> 'a \<Rightarrow> bool" where
  "col_gt x t = (case x of None \<Rightarrow> False | Some v \<Rightarrow> t < v)"

definition col_le :: "('a::linorder) option \<Rightarrow> 'a \<Rightarrow> bool" where
  "col_le x t = (case x of None \<Rightarrow> False | Some v \<Rightarrow> v \<le> t)"

definition col_ge :: "('a::linorder) option \<Rightarrow> 'a \<Rightarrow> bool" where
  "col_ge x t = (case x of None \<Rightarrow> False | Some v \<Rightarrow> t \<le> v)"

definition col_lt :: "('a::linorder) option \<Rightarrow> 'a \<Rightarrow> bool" where
  "col_lt x t = (case x of None \<Rightarrow> False | Some v \<Rightarrow> v < t)"

text \<open>
  \<^verbatim>\<open>noteStats.merge(candidateNotes, on=noteId, how="inner")\<close> where the right table has
  the key as its only column: the rows of \<^verbatim>\<open>noteStats\<close>, once per matching key.
\<close>

definition merge_ids :: "note_row list \<Rightarrow> int list \<Rightarrow> note_row list" where
  "merge_ids ns ids = map fst (merge_inner noteId ns (map (\<lambda>i. (i, ())) ids))"

subsection \<open>DefaultRule\<close>

definition DefaultRule_score_notes :: "status \<Rightarrow> note_row list \<Rightarrow> labels \<Rightarrow> rule_result" where
  "DefaultRule_score_notes st ns currentLabels = Inr (ns, map (\<lambda>n. (noteId n, st)) ns, None)"

definition DefaultRule :: "RuleID \<Rightarrow> RuleID set \<Rightarrow> status \<Rightarrow> scoring_rule" where
  "DefaultRule rid deps st =
     \<lparr>ruleID = rid, dependencies = deps, score_notes = DefaultRule_score_notes st\<rparr>"

subsection \<open>RuleFromFunction\<close>

text \<open>The wrapped function maps the table to a boolean mask, one entry per row.\<close>

definition RuleFromFunction_score_notes ::
  "status \<Rightarrow> (note_row list \<Rightarrow> bool list) \<Rightarrow> bool \<Rightarrow> note_row list \<Rightarrow> labels \<Rightarrow> rule_result" where
  "RuleFromFunction_score_notes st function onlyApplyToNotesThatSayTweetIsMisleading ns currentLabels =
     (let msk = function ns;
          msk = (if onlyApplyToNotesThatSayTweetIsMisleading
                 then map2 (\<lambda>m n. m \<and> classification n \<noteq> Some SAYS_NOT_MISLEADING) msk ns
                 else msk)
      in Inr (ns, map (\<lambda>p. (noteId (fst p), st)) (filter snd (zip ns msk)), None))"

definition RuleFromFunction ::
  "RuleID \<Rightarrow> RuleID set \<Rightarrow> status \<Rightarrow> (note_row list \<Rightarrow> bool list) \<Rightarrow> bool \<Rightarrow> scoring_rule" where
  "RuleFromFunction rid deps st function onlyMisleading =
     \<lparr>ruleID = rid, dependencies = deps,
      score_notes = RuleFromFunction_score_notes st function onlyMisleading\<rparr>"

subsection \<open>ApplyModelResult\<close>

text \<open>
  \<^verbatim>\<open>coreRejects | (noteStats[coreRatingStatus].isna() & expansionRejects)\<close>, the
  predicate shared by \<^verbatim>\<open>ApplyModelResult\<close> and \<^verbatim>\<open>ApplyGroupModelResult\<close>.
\<close>

definition coreRejects :: "note_row \<Rightarrow> bool" where
  "coreRejects n = (coreRatingStatus n \<in> {Some FIRM_REJECT, Some CRNH})"

definition expansionRejects :: "note_row \<Rightarrow> bool" where
  "expansionRejects n = (expansionRatingStatus n \<in> {Some FIRM_REJECT, Some CRNH})"

definition crhBlocked :: "note_row \<Rightarrow> bool" where
  "crhBlocked n = (coreRejects n \<or> (coreRatingStatus n = None \<and> expansionRejects n))"

text \<open>\<^verbatim>\<open>noteStats[col] == value\<close> on one row: NaN equals nothing.\<close>

definition cell_eq :: "cell \<Rightarrow> cell \<Rightarrow> bool" where
  "cell_eq a b = (a \<noteq> NaN \<and> a = b)"

text \<open>
  The source column is given by its reader, a filter column by its reader into cells.
\<close>

definition ApplyModelResult_score_notes ::
  "(note_row \<Rightarrow> status option) \<Rightarrow> bool \<Rightarrow> ((note_row \<Rightarrow> cell) \<times> cell) list \<Rightarrow>
   note_row list \<Rightarrow> labels \<Rightarrow> rule_result" where
  "ApplyModelResult_score_notes sourceColumn checkFirmReject filterColumnPairs ns currentLabels =
     (let ns1 = (if checkFirmReject
                 then filter (\<lambda>n. \<not> (crhBlocked n \<and> sourceColumn n = Some CRH)) ns
                 else ns);
          ns2 = foldl (\<lambda>t p. filter (\<lambda>n. cell_eq (fst p n) (snd p)) t) ns1 filterColumnPairs;
          noteStatusUpdates =
            concat (map (\<lambda>n. case sourceColumn n of None \<Rightarrow> [] | Some s \<Rightarrow> [(noteId n, s)]) ns2);
          noteStatusUpdates =
            map (\<lambda>u. (fst u, if snd u = FIRM_REJECT then NMR else snd u)) noteStatusUpdates
      in if list_all (\<lambda>u. snd u \<in> {CRH, CRNH, NMR}) noteStatusUpdates
         then Inr (ns, noteStatusUpdates, None)
         else Inl StatusAssertion)"

definition ApplyModelResult ::
  "RuleID \<Rightarrow> RuleID set \<Rightarrow> (note_row \<Rightarrow> status option) \<Rightarrow> bool \<Rightarrow>
   ((note_row \<Rightarrow> cell) \<times> cell) list \<Rightarrow> scoring_rule" where
  "ApplyModelResult rid deps sourceColumn checkFirmReject filterColumnPairs =
     \<lparr>ruleID = rid, dependencies = deps,
      score_notes = ApplyModelResult_score_notes sourceColumn checkFirmReject filterColumnPairs\<rparr>"

subsection \<open>RejectLowIntercept\<close>

definition RejectLowIntercept_score_notes ::
  "status \<Rightarrow> real \<Rightarrow> note_row list \<Rightarrow> labels \<Rightarrow> rule_result" where
  "RejectLowIntercept_score_notes st firmRejectThreshold ns currentLabels =
     (let candidateNotes = map fst (filter (\<lambda>l. snd l \<noteq> CRNH) currentLabels);
          ns1 = merge_ids ns candidateNotes;
          noteStatusUpdates = filter (\<lambda>n. col_lt (internalNoteIntercept n) firmRejectThreshold) ns1
      in Inr (ns, map (\<lambda>n. (noteId n, st)) noteStatusUpdates, None))"

definition RejectLowIntercept :: "RuleID \<Rightarrow> RuleID set \<Rightarrow> status \<Rightarrow> real \<Rightarrow> scoring_rule" where
  "RejectLowIntercept rid deps st firmRejectThreshold =
     \<lparr>ruleID = rid, dependencies = deps,
      score_notes = RejectLowIntercept_score_notes st firmRejectThreshold\<rparr>"

subsection \<open>NmrDueToMinStableCrhTime\<close>

text \<open>
  A row of the rule's working table \<^verbatim>\<open>noteStatusUpdates\<close>: the key, the stored
  timestamp, the current status, and the two columns the rule adds.
\<close>

record nmr_row =
  nId :: int
  ts :: "int option"
  statusNow :: status
  statusNew :: "status option"
  updatedTs :: "int option"

text \<open>\<^verbatim>\<open>~ts.isna() & (ts > 0)\<close>\<close>

definition ts_exists :: "int option \<Rightarrow> bool" where
  "ts_exists t = (t \<noteq> None \<and> col_gt t 0)"

text \<open>\<^verbatim>\<open>df.loc[mask, columns] = values\<close>: the rows of the mask are assigned, the others kept.\<close>

definition loc_assign :: "('r \<Rightarrow> bool) \<Rightarrow> ('r \<Rightarrow> 'r) \<Rightarrow> 'r list \<Rightarrow> 'r list" where
  "loc_assign msk assign t = map (\<lambda>r. if msk r then assign r else r) t"

text \<open>
  \<^verbatim>\<open>c.epochMillis\<close> is a constant of \<^verbatim>\<open>constants.py\<close>: the time of the run in
  milliseconds, a parameter here.
\<close>

definition NmrDueToMinStableCrhTime_score_notes ::
  "int \<Rightarrow> int \<Rightarrow> note_row list \<Rightarrow> labels \<Rightarrow> rule_result" where
  "NmrDueToMinStableCrhTime_score_notes epochMillis requiredStableCrhMinutesThreshold ns currentLabels =
     (let ns1 = filter (\<lambda>n. currentLabel n \<noteq> Some CRH) ns;
          ns2 = merge_inner noteId ns1 currentLabels;
          sel = filter (\<lambda>r. snd r = CRH \<or>
                   ts_exists (timestampMillisOfNmrDueToMinStableCrhTime (fst r))) ns2;
          t0 = map (\<lambda>r. \<lparr>nId = noteId (fst r),
                          ts = timestampMillisOfNmrDueToMinStableCrhTime (fst r),
                          statusNow = snd r, statusNew = None,
                          updatedTs = timestampMillisOfNmrDueToMinStableCrhTime (fst r)\<rparr>) sel
      in if \<not> distinct (map (\<lambda>r. (nId r, ts r, statusNow r)) t0) then Inl DuplicateRows
         else
           (let t1 = loc_assign
                  (\<lambda>r. statusNow r = CRH \<and> (ts r = None \<or> col_le (ts r) 0))
                  (\<lambda>r. r\<lparr>statusNew := Some NMR, updatedTs := Some epochMillis\<rparr>) t0;
                t2 = loc_assign
                  (\<lambda>r. statusNow r = CRH \<and> ts_exists (ts r) \<and>
                        (case ts r of None \<Rightarrow> False
                         | Some t \<Rightarrow> epochMillis - t \<ge> requiredStableCrhMinutesThreshold * 60 * 1000))
                  (\<lambda>r. r\<lparr>statusNew := Some CRH, updatedTs := Some (- 1)\<rparr>) t1;
                t3 = loc_assign
                  (\<lambda>r. statusNow r = CRH \<and> ts_exists (ts r) \<and>
                        (case ts r of None \<Rightarrow> False
                         | Some t \<Rightarrow> epochMillis - t < requiredStableCrhMinutesThreshold * 60 * 1000))
                  (\<lambda>r. r\<lparr>statusNew := Some NMR\<rparr>) t2;
                t4 = loc_assign
                  (\<lambda>r. statusNow r \<noteq> CRH \<and> ts_exists (ts r))
                  (\<lambda>r. r\<lparr>updatedTs := Some (- 1)\<rparr>) t3;
                noteStatusUpdatesWithStatusChange =
                  filter (\<lambda>r. statusNow r = CRH \<and> statusNew r = Some NMR) t4
            in Inr (ns,
                    concat (map (\<lambda>r. case statusNew r of None \<Rightarrow> [] | Some s \<Rightarrow> [(nId r, s)])
                      noteStatusUpdatesWithStatusChange),
                    Some \<lparr>cols = [''updatedTimestampMillisOfNmrDueToMinStableCrhTime''],
                          rows = map (\<lambda>r. (nId r, [case updatedTs r of None \<Rightarrow> NaN
                                                      | Some t \<Rightarrow> IntCell t])) t4\<rparr>)))"

definition NmrDueToMinStableCrhTime :: "RuleID \<Rightarrow> RuleID set \<Rightarrow> int \<Rightarrow> int \<Rightarrow> scoring_rule" where
  "NmrDueToMinStableCrhTime rid deps epochMillis requiredStableCrhMinutesThreshold =
     \<lparr>ruleID = rid, dependencies = deps,
      score_notes = NmrDueToMinStableCrhTime_score_notes epochMillis requiredStableCrhMinutesThreshold\<rparr>"

subsection \<open>ApplyGroupModelResult\<close>

text \<open>
  The columns \<^verbatim>\<open>core\<close> and \<^verbatim>\<open>expansion\<close>: the intercept is above the safeguard and,
  when a CRH threshold is given, below it; NaN where the intercept is NaN.
\<close>

definition in_range :: "real option \<Rightarrow> real \<Rightarrow> real option \<Rightarrow> bool option" where
  "in_range intercept minSafeguardThreshold crhThreshold =
     (let v = col_gt intercept minSafeguardThreshold;
          v = (case crhThreshold of None \<Rightarrow> v | Some t \<Rightarrow> v \<and> col_lt intercept t)
      in if intercept = None then None else Some v)"

text \<open>\<^verbatim>\<open>_get_value(row)\<close>: the first valid entry of the row decides; none is False.\<close>

definition get_value :: "bool option list \<Rightarrow> bool" where
  "get_value row = (case find (\<lambda>x. x \<noteq> None) row of Some (Some b) \<Rightarrow> b | _ \<Rightarrow> False)"

text \<open>An inner merge of two tables that have the key as their only column.\<close>

definition merge_keys :: "int list \<Rightarrow> int list \<Rightarrow> int list" where
  "merge_keys xs ys = concat (map (\<lambda>x. filter (\<lambda>y. y = x) ys) xs)"

text \<open>
  \<^verbatim>\<open>noteStats[["core", "expansion"]].apply(_get_value, axis=1)\<close> yields one boolean per
  row only when there is a row. On the table without rows (every note blocked, or no
  note at all) it yields an empty column that is not boolean, so
  \<^verbatim>\<open>noteStats[noteStats["actionable"]]\<close> selects by column labels instead of rows and
  \<^verbatim>\<open>[[noteId]]\<close> on the result raises KeyError.
\<close>

definition ApplyGroupModelResult_score_notes ::
  "int \<Rightarrow> real option \<Rightarrow> real option \<Rightarrow> real \<Rightarrow> note_row list \<Rightarrow> labels \<Rightarrow> rule_result" where
  "ApplyGroupModelResult_score_notes groupNumber coreCrhThreshold expansionCrhThreshold
       minSafeguardThreshold ns currentLabels =
     (let ns1 = filter (\<lambda>n. \<not> crhBlocked n) ns;
          probationaryCRHNotes =
            map noteId (filter (\<lambda>n. groupRatingStatus n = Some CRH \<and>
                                    modelingGroup n = Some groupNumber) ns1);
          currentNMRNotes = map fst (filter (\<lambda>l. snd l = NMR) currentLabels);
          noteStatusUpdates = merge_keys probationaryCRHNotes currentNMRNotes
      in if ns1 = [] then Inl KeyError
         else
           (let actionableNotes =
                  map noteId
                    (filter (\<lambda>n. get_value
                         [in_range (coreNoteIntercept n) minSafeguardThreshold coreCrhThreshold,
                          in_range (expansionNoteIntercept n) minSafeguardThreshold
                            expansionCrhThreshold])
                       ns1);
                noteStatusUpdates = merge_keys noteStatusUpdates actionableNotes
            in Inr (ns, map (\<lambda>i. (i, CRH)) noteStatusUpdates, None)))"

definition ApplyGroupModelResult ::
  "RuleID \<Rightarrow> RuleID set \<Rightarrow> int \<Rightarrow> real option \<Rightarrow> real option \<Rightarrow> real \<Rightarrow> scoring_rule" where
  "ApplyGroupModelResult rid deps groupNumber coreCrhThreshold expansionCrhThreshold
       minSafeguardThreshold =
     \<lparr>ruleID = rid, dependencies = deps,
      score_notes = ApplyGroupModelResult_score_notes groupNumber coreCrhThreshold
        expansionCrhThreshold minSafeguardThreshold\<rparr>"

subsection \<open>InsufficientExplanation\<close>

text \<open>
  The table \<^verbatim>\<open>get_top_two_tags_for_note\<close> returns: per note the key,
  \<^verbatim>\<open>firstTag\<close> and \<^verbatim>\<open>secondTag\<close>. The function itself is in
  \<^verbatim>\<open>explanation_tags.py\<close>, which is not among the sources; the rule takes it as a
  parameter, called with the table, two integers and the tags in tie-break order.
\<close>

type_synonym top_tags = "(int \<times> string option \<times> string option) list"

type_synonym top_tags_fn = "note_row list \<Rightarrow> int \<Rightarrow> int \<Rightarrow> string list \<Rightarrow> top_tags"

text \<open>
  \<^verbatim>\<open>noteStats.loc[topTags[noteId], firstTag] = topTags[firstTag]\<close> and the same for
  \<^verbatim>\<open>secondTag\<close>, on \<^verbatim>\<open>noteStats\<close> indexed by \<^verbatim>\<open>noteId\<close>: the rows whose key
  is in \<^verbatim>\<open>topTags\<close> get its tags, the others keep theirs. A key of \<^verbatim>\<open>topTags\<close>
  that is no key of \<^verbatim>\<open>noteStats\<close> raises KeyError.
\<close>

definition set_top_tags :: "top_tags \<Rightarrow> note_row list \<Rightarrow> error + note_row list" where
  "set_top_tags topTags ns =
     (if \<not> set (map fst topTags) \<subseteq> set (map noteId ns) then Inl KeyError
      else Inr (map (\<lambda>n. case find (\<lambda>t. fst t = noteId n) topTags of
                            None \<Rightarrow> n
                          | Some t \<Rightarrow> n\<lparr>firstTag := fst (snd t), secondTag := snd (snd t)\<rparr>) ns))"

text \<open>
  \<^verbatim>\<open>noteStats.loc[:, firstTag] = topTags[firstTag]\<close> and the same for
  \<^verbatim>\<open>secondTag\<close>: every row is assigned, NaN where \<^verbatim>\<open>topTags\<close> has no row for it.
\<close>

definition assign_top_tags :: "top_tags \<Rightarrow> note_row list \<Rightarrow> note_row list" where
  "assign_top_tags topTags ns =
     map (\<lambda>n. case find (\<lambda>t. fst t = noteId n) topTags of
                 None \<Rightarrow> n\<lparr>firstTag := None, secondTag := None\<rparr>
               | Some t \<Rightarrow> n\<lparr>firstTag := fst (snd t), secondTag := snd (snd t)\<rparr>) ns"

text \<open>
  The tie-break orders \<^verbatim>\<open>c.helpfulTagsTiebreakOrder\<close> and
  \<^verbatim>\<open>c.notHelpfulTagsTiebreakOrder\<close> are constants of \<^verbatim>\<open>constants.py\<close>, parameters
  here. The first call passes \<^verbatim>\<open>minTagsNeededForStatus\<close> before
  \<^verbatim>\<open>minRatingsToGetTag\<close>, the other two the other way round, as the source does.
\<close>

definition InsufficientExplanation_score_notes ::
  "top_tags_fn \<Rightarrow> string list \<Rightarrow> string list \<Rightarrow> status \<Rightarrow> int \<Rightarrow> int \<Rightarrow> string list option \<Rightarrow>
   note_row list \<Rightarrow> labels \<Rightarrow> rule_result" where
  "InsufficientExplanation_score_notes topTwo helpfulTagsTiebreakOrder notHelpfulTagsTiebreakOrder
       st minRatingsToGetTag minTagsNeededForStatus tagsConsidered ns currentLabels =
     (case
        (case tagsConsidered of
           None \<Rightarrow>
             (let crh = map fst (filter (\<lambda>l. snd l = CRH) currentLabels);
                  topCrhTags = topTwo (filter (\<lambda>n. noteId n \<in> set crh) ns)
                    minTagsNeededForStatus minRatingsToGetTag helpfulTagsTiebreakOrder
              in case set_top_tags topCrhTags ns of
                   Inl e \<Rightarrow> Inl e
                 | Inr ns1 \<Rightarrow>
                     (let crnh = map fst (filter (\<lambda>l. snd l = CRNH) currentLabels);
                          topCrnhTags = topTwo (filter (\<lambda>n. noteId n \<in> set crnh) ns1)
                            minRatingsToGetTag minTagsNeededForStatus notHelpfulTagsTiebreakOrder
                      in set_top_tags topCrnhTags ns1))
         | Some tags \<Rightarrow>
             Inr (assign_top_tags (topTwo ns minRatingsToGetTag minTagsNeededForStatus tags) ns))
      of
        Inl e \<Rightarrow> Inl e
      | Inr ns2 \<Rightarrow>
          (let crNotes = map fst (filter (\<lambda>l. snd l = CRH \<or> snd l = CRNH) currentLabels);
               crStats = merge_ids ns2 crNotes;
               noteStatusUpdates =
                 map noteId
                   (filter (\<lambda>n. int (length (filter (\<lambda>t. t \<noteq> None) [firstTag n, secondTag n]))
                                  < minTagsNeededForStatus) crStats)
           in if \<not> distinct noteStatusUpdates then Inl DuplicateRows
              else Inr (ns2, map (\<lambda>i. (i, st)) noteStatusUpdates, None)))"

definition InsufficientExplanation ::
  "top_tags_fn \<Rightarrow> string list \<Rightarrow> string list \<Rightarrow> RuleID \<Rightarrow> RuleID set \<Rightarrow> status \<Rightarrow> int \<Rightarrow> int \<Rightarrow>
   string list option \<Rightarrow> scoring_rule" where
  "InsufficientExplanation topTwo helpfulOrder notHelpfulOrder rid deps st minRatingsToGetTag
       minTagsNeededForStatus tagsConsidered =
     \<lparr>ruleID = rid, dependencies = deps,
      score_notes = InsufficientExplanation_score_notes topTwo helpfulOrder notHelpfulOrder st
        minRatingsToGetTag minTagsNeededForStatus tagsConsidered\<rparr>"

subsection \<open>The filters\<close>

text \<open>
  \<^verbatim>\<open>currentLabels[currentLabels[statusColumn] != CRNH][[noteId]]\<close> merged into
  \<^verbatim>\<open>noteStats\<close>: the candidate rows of the filters that spare CRNH notes.
\<close>

definition non_crnh_candidates :: "note_row list \<Rightarrow> labels \<Rightarrow> note_row list" where
  "non_crnh_candidates ns currentLabels =
     merge_ids ns (map fst (filter (\<lambda>l. snd l \<noteq> CRNH) currentLabels))"

text \<open>
  \<^verbatim>\<open>FilterTagOutliers\<close>. The tags \<^verbatim>\<open>c.notHelpfulTagsTSVOrder\<close> and the disabled tag
  \<^verbatim>\<open>c.notHelpfulHardToUnderstandKey\<close> are constants of \<^verbatim>\<open>constants.py\<close>, parameters
  here; the thresholds are keyed by the tag whose ratio column they bound, and a tag
  without a threshold raises KeyError.
\<close>

definition adjusted_of :: "note_row \<Rightarrow> string \<Rightarrow> real option" where
  "adjusted_of n tag = map_of (adjusted n) tag"

definition adjusted_ratio_of :: "note_row \<Rightarrow> string \<Rightarrow> real option" where
  "adjusted_ratio_of n tag = map_of (adjusted_ratio n) tag"

definition FilterTagOutliers_score_notes ::
  "string list \<Rightarrow> string \<Rightarrow> status \<Rightarrow> (string \<rightharpoonup> real) \<Rightarrow> real \<Rightarrow>
   note_row list \<Rightarrow> labels \<Rightarrow> rule_result" where
  "FilterTagOutliers_score_notes notHelpfulTagsTSVOrder notHelpfulHardToUnderstandKey st
       tagFilterThresholds minAdjustedTotal ns currentLabels =
     (let ns1 = non_crnh_candidates ns currentLabels;
          tags = filter (\<lambda>tag. tag \<noteq> notHelpfulHardToUnderstandKey) notHelpfulTagsTSVOrder
      in if \<exists>tag\<in>set tags. tagFilterThresholds tag = None then Inl KeyError
         else
           (let impactedNotes =
                  concat (map (\<lambda>tag.
                      map (\<lambda>n. (noteId n, tag))
                        (filter (\<lambda>n. col_gt (adjusted_of n tag) minAdjustedTotal \<and>
                                      (case tagFilterThresholds tag of
                                         None \<Rightarrow> False
                                       | Some t \<Rightarrow> col_gt (adjusted_ratio_of n tag) t)) ns1))
                    tags);
                impactedNotes =
                  map (\<lambda>g. (fst g, str_join '','' (snd g))) (groupby_list impactedNotes)
            in Inr (ns, map (\<lambda>g. (fst g, st)) impactedNotes,
                    Some \<lparr>cols = [''activeFilterTags''],
                          rows = map (\<lambda>g. (fst g, [StrCell (snd g)])) impactedNotes\<rparr>)))"

definition FilterTagOutliers ::
  "string list \<Rightarrow> string \<Rightarrow> RuleID \<Rightarrow> RuleID set \<Rightarrow> status \<Rightarrow> (string \<rightharpoonup> real) \<Rightarrow> real \<Rightarrow>
   scoring_rule" where
  "FilterTagOutliers tagOrder disabledTag rid deps st tagFilterThresholds minAdjustedTotal =
     \<lparr>ruleID = rid, dependencies = deps,
      score_notes = FilterTagOutliers_score_notes tagOrder disabledTag st tagFilterThresholds
        minAdjustedTotal\<rparr>"

text \<open>
  \<^verbatim>\<open>pd.testing.assert_frame_equal(noteStatusUpdates, noteStatusUpdates.drop_duplicates())\<close>
  on a table that has the key as its only column.
\<close>

definition assert_no_duplicates :: "status \<Rightarrow> note_row list \<Rightarrow> note_row list \<Rightarrow> rule_result" where
  "assert_no_duplicates st ns noteStatusUpdates =
     (if \<not> distinct (map noteId noteStatusUpdates) then Inl DuplicateRows
      else Inr (ns, map (\<lambda>n. (noteId n, st)) noteStatusUpdates, None))"

definition FilterIncorrect_score_notes ::
  "status \<Rightarrow> int \<Rightarrow> int \<Rightarrow> real \<Rightarrow> note_row list \<Rightarrow> labels \<Rightarrow> rule_result" where
  "FilterIncorrect_score_notes st tagThreshold voteThreshold weightedTotalVotes ns currentLabels =
     assert_no_duplicates st ns
       (filter (\<lambda>n. col_ge (notHelpfulIncorrect_interval n) tagThreshold \<and>
                     col_ge (num_voters_interval n) voteThreshold \<and>
                     col_ge (tf_idf_incorrect_interval n) weightedTotalVotes)
          (non_crnh_candidates ns currentLabels))"

definition FilterIncorrect ::
  "RuleID \<Rightarrow> RuleID set \<Rightarrow> status \<Rightarrow> int \<Rightarrow> int \<Rightarrow> real \<Rightarrow> scoring_rule" where
  "FilterIncorrect rid deps st tagThreshold voteThreshold weightedTotalVotes =
     \<lparr>ruleID = rid, dependencies = deps,
      score_notes = FilterIncorrect_score_notes st tagThreshold voteThreshold weightedTotalVotes\<rparr>"

definition FilterLowDiligence_score_notes ::
  "status \<Rightarrow> real \<Rightarrow> note_row list \<Rightarrow> labels \<Rightarrow> rule_result" where
  "FilterLowDiligence_score_notes st interceptThreshold ns currentLabels =
     assert_no_duplicates st ns
       (filter (\<lambda>n. col_gt (lowDiligenceNoteIntercept n) interceptThreshold)
          (non_crnh_candidates ns currentLabels))"

definition FilterLowDiligence :: "RuleID \<Rightarrow> RuleID set \<Rightarrow> status \<Rightarrow> real \<Rightarrow> scoring_rule" where
  "FilterLowDiligence rid deps st interceptThreshold =
     \<lparr>ruleID = rid, dependencies = deps,
      score_notes = FilterLowDiligence_score_notes st interceptThreshold\<rparr>"

text \<open>\<^verbatim>\<open>FilterLargeFactor\<close> takes its candidates from the notes that are currently CRH.\<close>

definition FilterLargeFactor_score_notes ::
  "status \<Rightarrow> real \<Rightarrow> note_row list \<Rightarrow> labels \<Rightarrow> rule_result" where
  "FilterLargeFactor_score_notes st factorThreshold ns currentLabels =
     assert_no_duplicates st ns
       (filter (\<lambda>n. col_gt (map_option abs (internalNoteFactor1 n)) factorThreshold)
          (merge_ids ns (map fst (filter (\<lambda>l. snd l = CRH) currentLabels))))"

definition FilterLargeFactor :: "RuleID \<Rightarrow> RuleID set \<Rightarrow> status \<Rightarrow> real \<Rightarrow> scoring_rule" where
  "FilterLargeFactor rid deps st factorThreshold =
     \<lparr>ruleID = rid, dependencies = deps,
      score_notes = FilterLargeFactor_score_notes st factorThreshold\<rparr>"

subsection \<open>NMtoCRNH\<close>

definition NMtoCRNH_score_notes :: "status \<Rightarrow> real \<Rightarrow> note_row list \<Rightarrow> labels \<Rightarrow> rule_result" where
  "NMtoCRNH_score_notes st crnhThresholdNMIntercept ns currentLabels =
     Inr (ns,
          map (\<lambda>n. (noteId n, st))
            (filter (\<lambda>n. col_lt (internalNoteIntercept n) crnhThresholdNMIntercept \<and>
                          classification n = Some SAYS_NOT_MISLEADING) ns),
          None)"

definition NMtoCRNH :: "RuleID \<Rightarrow> RuleID set \<Rightarrow> status \<Rightarrow> real \<Rightarrow> scoring_rule" where
  "NMtoCRNH rid deps st crnhThresholdNMIntercept =
     \<lparr>ruleID = rid, dependencies = deps,
      score_notes = NMtoCRNH_score_notes st crnhThresholdNMIntercept\<rparr>"

subsection \<open>AddCRHInertia\<close>

definition AddCRHInertia_score_notes ::
  "status \<Rightarrow> real \<Rightarrow> real \<Rightarrow> int \<Rightarrow> note_row list \<Rightarrow> labels \<Rightarrow> rule_result" where
  "AddCRHInertia_score_notes st threshold expectedMax minRatingsNeeded ns currentLabels =
     (let noteIds = map fst (filter (\<lambda>l. snd l \<noteq> CRH) currentLabels);
          noteIds = merge_keys noteIds
            (map noteId
               (filter (\<lambda>n. col_ge (numRatings n) minRatingsNeeded \<and>
                             col_ge (internalNoteIntercept n) threshold \<and>
                             currentLabel n = Some CRH \<and>
                             classification n \<noteq> Some SAYS_NOT_MISLEADING) ns));
          noteIntercepts = map internalNoteIntercept (merge_ids ns noteIds)
      in if filter (\<lambda>x. col_gt x expectedMax) noteIntercepts \<noteq> [] then Inl ExpectedMaxViolation
         else Inr (ns, map (\<lambda>i. (i, st)) noteIds, None))"

definition AddCRHInertia ::
  "RuleID \<Rightarrow> RuleID set \<Rightarrow> status \<Rightarrow> real \<Rightarrow> real \<Rightarrow> int \<Rightarrow> scoring_rule" where
  "AddCRHInertia rid deps st threshold expectedMax minRatingsNeeded =
     \<lparr>ruleID = rid, dependencies = deps,
      score_notes = AddCRHInertia_score_notes st threshold expectedMax minRatingsNeeded\<rparr>"

subsection \<open>ScoringDriftGuard\<close>

text \<open>The table \<^verbatim>\<open>lockedStatus\<close>: per row a key and a nullable locked status.\<close>

definition ScoringDriftGuard_score_notes ::
  "(int \<times> status option) list \<Rightarrow> note_row list \<Rightarrow> labels \<Rightarrow> rule_result" where
  "ScoringDriftGuard_score_notes lockedStatus ns currentLabels =
     (let lockedStatusDF =
            concat (map (\<lambda>r. case snd r of None \<Rightarrow> [] | Some s \<Rightarrow> [(fst r, s)]) lockedStatus);
          mergedLabels = merge_inner fst lockedStatusDF currentLabels;
          mergedLabels = filter (\<lambda>r. snd (fst r) \<noteq> snd r) mergedLabels
      in Inr (ns,
              map (\<lambda>r. (fst (fst r), snd (fst r))) mergedLabels,
              Some \<lparr>cols = [''unlockedRatingStatus''],
                    rows = map (\<lambda>r. (fst (fst r), [StatusCell (snd r)])) mergedLabels\<rparr>))"

definition ScoringDriftGuard ::
  "RuleID \<Rightarrow> RuleID set \<Rightarrow> (int \<times> status option) list \<Rightarrow> scoring_rule" where
  "ScoringDriftGuard rid deps lockedStatus =
     \<lparr>ruleID = rid, dependencies = deps,
      score_notes = ScoringDriftGuard_score_notes lockedStatus\<rparr>"

subsection \<open>ApplyTopicModelResult\<close>

text \<open>The topic is given by its name, \<^verbatim>\<open>self._topic.name\<close>; both thresholds are set.\<close>

definition ApplyTopicModelResult_score_notes ::
  "string \<Rightarrow> real \<Rightarrow> real \<Rightarrow> note_row list \<Rightarrow> labels \<Rightarrow> rule_result" where
  "ApplyTopicModelResult_score_notes topic topicNMRInterceptThreshold topicNMRFactorThreshold
       ns currentLabels =
     (let currentCRHNotes = map fst (filter (\<lambda>l. snd l = CRH) currentLabels);
          topicLowNotes =
            map noteId
              (filter (\<lambda>n. (col_lt (topicNoteIntercept n) topicNMRInterceptThreshold \<or>
                             col_gt (map_option abs (topicNoteFactor1 n)) topicNMRFactorThreshold) \<and>
                            topicNoteConfident n \<and> noteTopic n = Some topic) ns)
      in Inr (ns, map (\<lambda>i. (i, NMR)) (merge_keys currentCRHNotes topicLowNotes), None))"

definition ApplyTopicModelResult ::
  "RuleID \<Rightarrow> RuleID set \<Rightarrow> string \<Rightarrow> real \<Rightarrow> real \<Rightarrow> scoring_rule" where
  "ApplyTopicModelResult rid deps topic topicNMRInterceptThreshold topicNMRFactorThreshold =
     \<lparr>ruleID = rid, dependencies = deps,
      score_notes = ApplyTopicModelResult_score_notes topic topicNMRInterceptThreshold
        topicNMRFactorThreshold\<rparr>"



section \<open>What the rules of a run emitted\<close>

text \<open>
  What one call of \<^verbatim>\<open>score_notes\<close> in the loop returned: the rule, its status
  updates and its additional columns.
\<close>

record emission =
  by_rule :: RuleID
  updates :: labels
  added :: "frame option"

text \<open>
  The calls of \<^verbatim>\<open>score_notes\<close> that returned in a run of the loop from state \<open>st\<close>,
  in the order of the rules. The list ends where the loop stops: at the end of the
  rules, or at the first rule that fails (whose call is listed when it returned and a
  later assertion of the loop body failed).
\<close>

fun emitted :: "engine_state \<Rightarrow> scoring_rule list \<Rightarrow> emission list" where
  "emitted st [] = []"
| "emitted st (rule # rules) =
     (if dependencies rule - ruleIDs st \<noteq> {} \<or> ruleID rule \<in> ruleIDs st then []
      else
        (case score_notes rule (noteStats st) (noteLabels st) of
           Inl e \<Rightarrow> []
         | Inr (ns, upd, ac) \<Rightarrow>
             \<lparr>by_rule = ruleID rule, updates = upd, added = ac\<rparr> #
               (case apply_rule st rule of Inl e \<Rightarrow> [] | Inr st' \<Rightarrow> emitted st' rules)))"

text \<open>The emissions that updated note \<open>n\<close>, in the order of the rules.\<close>

definition acting :: "int \<Rightarrow> emission list \<Rightarrow> emission list" where
  "acting n es = filter (\<lambda>e. n \<in> set (map fst (updates e))) es"

text \<open>\<^verbatim>\<open>s.split(sep)\<close> for a separator of one character.\<close>

fun split_sep :: "char \<Rightarrow> string \<Rightarrow> string list" where
  "split_sep c [] = [[]]"
| "split_sep c (x # xs) =
     (if x = c then [] # split_sep c xs
      else (x # hd (split_sep c xs)) # tl (split_sep c xs))"

text \<open>
  A rule that leaves the \<^verbatim>\<open>noteId\<close> column of \<^verbatim>\<open>noteStats\<close> as it found it.
\<close>

definition keeps_note_ids :: "scoring_rule \<Rightarrow> bool" where
  "keeps_note_ids rule =
     (\<forall>ns ls ns' upd ac. score_notes rule ns ls = Inr (ns', upd, ac)
        \<longrightarrow> map noteId ns' = map noteId ns)"

section \<open>Example inputs\<close>

text \<open>A note with the given key and every other column missing.\<close>

definition blank_note :: "int \<Rightarrow> note_row" where
  "blank_note i =
     \<lparr>noteId = i, classification = None, internalNoteIntercept = None,
      coreNoteIntercept = None, coreRatingStatus = None, expansionNoteIntercept = None,
      expansionRatingStatus = None, groupRatingStatus = None, modelingGroup = None,
      currentLabel = None, timestampMillisOfNmrDueToMinStableCrhTime = None,
      firstTag = None, secondTag = None, tagCounts = [],
      internalNoteFactor1 = None, lowDiligenceNoteIntercept = None, numRatings = None,
      notHelpfulIncorrect_interval = None, num_voters_interval = None,
      tf_idf_incorrect_interval = None, topicNoteIntercept = None, topicNoteFactor1 = None,
      topicNoteConfident = False, noteTopic = None, adjusted = [], adjusted_ratio = []\<rparr>"

text \<open>
  Two notes and two rule lists: the first two rules of the matrix-factorization scorer
  that matter for a low intercept, and the first two rules of the meta scorer.
\<close>

definition ex_note1 :: note_row where
  "ex_note1 = (blank_note 1)\<lparr>internalNoteIntercept := Some 0.1, coreRatingStatus := Some FIRM_REJECT\<rparr>"

definition ex_note2 :: note_row where
  "ex_note2 = (blank_note 2)\<lparr>internalNoteIntercept := Some 0.5, coreRatingStatus := Some CRH\<rparr>"

definition mf_rules :: "scoring_rule list" where
  "mf_rules = [DefaultRule INITIAL_NMR {} NMR,
               RejectLowIntercept LOW_INTERCEPT {INITIAL_NMR} FIRM_REJECT 0.3]"

definition meta_rules :: "scoring_rule list" where
  "meta_rules = [DefaultRule META_INITIAL_NMR {} NMR,
                 ApplyModelResult CORE_MODEL {META_INITIAL_NMR} coreRatingStatus True []]"

definition out_row :: "note_row \<Rightarrow> status \<Rightarrow> string \<Rightarrow> string option \<Rightarrow> scored_note" where
  "out_row n s ar db =
     \<lparr>stats = n, ratingStatus = s, activeRules = ar, decidedBy = db, extras = None,
      currentlyRatedHelpfulBool = (s = CRH), currentlyRatedNotHelpfulBool = (s = CRNH),
      awaitingMoreRatingsBool = (s = NMR)\<rparr>"

text \<open>
  A note first seen as CRH, and a rule list in which two rules add the same column.
\<close>

definition ex_note3 :: note_row where
  "ex_note3 = (blank_note 3)\<lparr>currentLabel := Some NMR\<rparr>"

definition clash_rules :: "scoring_rule list" where
  "clash_rules =
     [DefaultRule INITIAL_NMR {} CRH,
      NmrDueToMinStableCrhTime NMR_DUE_TO_MIN_STABLE_CRH_TIME {INITIAL_NMR} 1000000 30,
      NmrDueToMinStableCrhTime GENERAL_CRH_INERTIA {INITIAL_NMR} 1000000 30]"

text \<open>Notes for the propagation rule, read from the expansion status column.\<close>

definition ex_note4 :: note_row where
  "ex_note4 = (blank_note 4)\<lparr>coreRatingStatus := Some CRNH, expansionRatingStatus := Some CRH\<rparr>"

definition ex_note5 :: note_row where
  "ex_note5 = (blank_note 5)\<lparr>expansionRatingStatus := Some FIRM_REJECT\<rparr>"

definition ex_note6 :: note_row where
  "ex_note6 = blank_note 6"

definition ex_note7 :: note_row where
  "ex_note7 = (blank_note 7)\<lparr>expansionRatingStatus := Some CRH\<rparr>"

text \<open>
  Notes of modeling group 13: in range, without intercepts, already CRH, and in range
  but rated CRNH by the core model.
\<close>

definition group_note1 :: note_row where
  "group_note1 = (blank_note 11)\<lparr>groupRatingStatus := Some CRH, modelingGroup := Some 13,
     coreNoteIntercept := Some 0.35\<rparr>"

definition group_note2 :: note_row where
  "group_note2 = (blank_note 12)\<lparr>groupRatingStatus := Some CRH, modelingGroup := Some 13\<rparr>"

definition group_note3 :: note_row where
  "group_note3 = (blank_note 13)\<lparr>groupRatingStatus := Some CRH, modelingGroup := Some 13,
     coreNoteIntercept := Some 0.35\<rparr>"

definition group_note4 :: note_row where
  "group_note4 = (blank_note 14)\<lparr>groupRatingStatus := Some CRH, modelingGroup := Some 13,
     coreNoteIntercept := Some 0.35, coreRatingStatus := Some CRNH\<rparr>"

section \<open>The table of the stable-CRH rule\<close>

text \<open>
  The rows the rule considers (the join of the notes that were not CRH in the previous
  run with the current labels, kept when currently CRH or with a positive timestamp),
  and for a considered row whether its status flips to NMR and its updated timestamp,
  following the table of the specification (4.13).
\<close>

definition flips_to_nmr :: "int \<Rightarrow> int \<Rightarrow> status \<Rightarrow> int option \<Rightarrow> bool" where
  "flips_to_nmr now thr s T =
     (s = CRH \<and> (case T of None \<Rightarrow> True | Some t \<Rightarrow> t \<le> 0 \<or> now - t < thr * 60 * 1000))"

definition updated_timestamp :: "int \<Rightarrow> int \<Rightarrow> status \<Rightarrow> int option \<Rightarrow> int" where
  "updated_timestamp now thr s T =
     (if s = CRH
      then (case T of
              None \<Rightarrow> now
            | Some t \<Rightarrow> if t \<le> 0 then now else if now - t \<ge> thr * 60 * 1000 then - 1 else t)
      else - 1)"

definition considered :: "note_row list \<Rightarrow> labels \<Rightarrow> (note_row \<times> status) list" where
  "considered ns ls =
     filter (\<lambda>r. snd r = CRH \<or> ts_exists (timestampMillisOfNmrDueToMinStableCrhTime (fst r)))
       (merge_inner noteId (filter (\<lambda>n. currentLabel n \<noteq> Some CRH) ns) ls)"

text \<open>The five rows of the table, and a note that no rule has labelled.\<close>

definition stable_notes :: "note_row list" where
  "stable_notes =
     [(blank_note 21)\<lparr>currentLabel := Some NMR\<rparr>,
      (blank_note 22)\<lparr>currentLabel := Some NMR,
         timestampMillisOfNmrDueToMinStableCrhTime := Some 1000000\<rparr>,
      (blank_note 23)\<lparr>currentLabel := Some NMR,
         timestampMillisOfNmrDueToMinStableCrhTime := Some 2000000\<rparr>,
      (blank_note 24)\<lparr>timestampMillisOfNmrDueToMinStableCrhTime := Some 5\<rparr>,
      blank_note 25,
      (blank_note 26)\<lparr>timestampMillisOfNmrDueToMinStableCrhTime := Some 5\<rparr>]"

definition stable_labels :: labels where
  "stable_labels = [(21, CRH), (22, CRH), (23, CRH), (24, NMR), (25, NMR)]"

definition stable_extras :: frame where
  "stable_extras =
     \<lparr>cols = [''updatedTimestampMillisOfNmrDueToMinStableCrhTime''],
      rows = [(21, [IntCell 2800000]), (22, [IntCell (- 1)]), (23, [IntCell 2000000]),
              (24, [IntCell (- 1)])]\<rparr>"



section \<open>Properties\<close>

subsection \<open>Unfolding the engine on concrete inputs\<close>

lemmas engine_defs =
  apply_scoring_rules_def initial_state_def apply_rule_def check_dependencies_def
  finalize_def condense_def groupby_list_def merge_inner_def merge_left_def merge_outer_def
  side_rows_def scored_row_def get_name_def rav_def merge_ids_def Let_def

lemmas example_defs = blank_note_def

subsection \<open>The loop: identifiers and dependencies\<close>

lemma run_rules_append:
  "run_rules st (xs @ ys) =
     (case run_rules st xs of Inl e \<Rightarrow> Inl e | Inr st' \<Rightarrow> run_rules st' ys)"
  by (induction xs arbitrary: st) (auto split: sum.splits)

lemma apply_rule_ruleIDs:
  assumes "apply_rule st rule = Inr st'"
  shows "ruleIDs st' = insert (ruleID rule) (ruleIDs st)"
    and "dependencies rule \<subseteq> ruleIDs st"
    and "ruleID rule \<notin> ruleIDs st"
  using assms
  by (auto simp: apply_rule_def check_dependencies_def Let_def
           split: sum.splits if_splits option.splits prod.splits)

lemma apply_rule_dependency_error:
  "\<not> dependencies rule \<subseteq> ruleIDs st \<Longrightarrow> apply_rule st rule = Inl DependencyViolation"
  by (auto simp: apply_rule_def check_dependencies_def)

lemma apply_rule_duplicate_error:
  "dependencies rule \<subseteq> ruleIDs st \<Longrightarrow> ruleID rule \<in> ruleIDs st \<Longrightarrow>
   apply_rule st rule = Inl DuplicateRule"
  by (auto simp: apply_rule_def check_dependencies_def)

lemma run_rules_ruleIDs:
  "run_rules st rules = Inr st' \<Longrightarrow> ruleIDs st' = ruleIDs st \<union> set (map ruleID rules)"
proof (induction rules arbitrary: st)
  case Nil
  then show ?case by simp
next
  case (Cons rule rules)
  then obtain st1 where 1: "apply_rule st rule = Inr st1" and 2: "run_rules st1 rules = Inr st'"
    by (auto split: sum.splits)
  from Cons.IH[OF 2] apply_rule_ruleIDs(1)[OF 1] show ?case by auto
qed

text \<open>
  C8. \<^verbatim>\<open>check_dependencies(priorRules)\<close> raises exactly when some declared dependency
  of the rule is not in \<^verbatim>\<open>priorRules\<close>. In the driver, when the rules \<open>pre\<close> before a
  rule have run, the set of identifiers it is checked against is exactly the identifiers
  of \<open>pre\<close>; a missing dependency fails the run with the dependency error, a repeated
  identifier with the duplicate error. Hence in a run that returns, every rule's
  dependencies are among the identifiers of the strictly earlier rules and no identifier
  repeats.
\<close>

theorem check_dependencies_enforced:
  "(check_dependencies rule priorRules = Inl DependencyViolation
      \<longleftrightarrow> \<not> dependencies rule \<subseteq> priorRules)
   \<and> (check_dependencies rule priorRules = Inr () \<longleftrightarrow> dependencies rule \<subseteq> priorRules)
   \<and> (run_rules (initial_state ns) pre = Inr st \<longrightarrow>
        ruleIDs st = set (map ruleID pre)
        \<and> (\<not> dependencies rule \<subseteq> set (map ruleID pre) \<longrightarrow>
             apply_scoring_rules ns (pre @ rule # post) dec = Inl DependencyViolation)
        \<and> (dependencies rule \<subseteq> set (map ruleID pre) \<and> ruleID rule \<in> set (map ruleID pre) \<longrightarrow>
             apply_scoring_rules ns (pre @ rule # post) dec = Inl DuplicateRule))
   \<and> (apply_scoring_rules ns (pre @ rule # post) dec = Inr out \<longrightarrow>
        dependencies rule \<subseteq> set (map ruleID pre) \<and> ruleID rule \<notin> set (map ruleID pre)
        \<and> distinct (map ruleID (pre @ rule # post)))"
proof -
  have a: "check_dependencies rule priorRules = Inl DependencyViolation
      \<longleftrightarrow> \<not> dependencies rule \<subseteq> priorRules"
    by (auto simp: check_dependencies_def)
  have b: "check_dependencies rule priorRules = Inr () \<longleftrightarrow> dependencies rule \<subseteq> priorRules"
    by (auto simp: check_dependencies_def)
  have c: "ruleIDs st = set (map ruleID pre)
        \<and> (\<not> dependencies rule \<subseteq> set (map ruleID pre) \<longrightarrow>
             apply_scoring_rules ns (pre @ rule # post) dec = Inl DependencyViolation)
        \<and> (dependencies rule \<subseteq> set (map ruleID pre) \<and> ruleID rule \<in> set (map ruleID pre) \<longrightarrow>
             apply_scoring_rules ns (pre @ rule # post) dec = Inl DuplicateRule)"
    if run: "run_rules (initial_state ns) pre = Inr st"
  proof -
    have ids: "ruleIDs st = set (map ruleID pre)"
      using run_rules_ruleIDs[OF run] by (simp add: initial_state_def)
    have r: "run_rules (initial_state ns) (pre @ rule # post) =
        (case apply_rule st rule of Inl e \<Rightarrow> Inl e | Inr st' \<Rightarrow> run_rules st' post)"
      by (simp add: run_rules_append run)
    show ?thesis
      using ids apply_rule_dependency_error[of rule st] apply_rule_duplicate_error[of rule st]
      by (auto simp: apply_scoring_rules_def r)
  qed
  have d: "dependencies rule \<subseteq> set (map ruleID pre) \<and> ruleID rule \<notin> set (map ruleID pre)
        \<and> distinct (map ruleID (pre @ rule # post))"
    if ok: "apply_scoring_rules ns (pre @ rule # post) dec = Inr out" for pre rule post
  proof -
    have gen: "run_rules s rs = Inr s' \<Longrightarrow> distinct (map ruleID rs) \<and> ruleIDs s \<inter> set (map ruleID rs) = {}"
      for s rs s'
    proof (induction rs arbitrary: s)
      case Nil
      then show ?case by simp
    next
      case (Cons x xs)
      then obtain s1 where 1: "apply_rule s x = Inr s1" and 2: "run_rules s1 xs = Inr s'"
        by (auto split: sum.splits)
      from Cons.IH[OF 2] apply_rule_ruleIDs[OF 1] show ?case by auto
    qed
    from ok obtain s' where fin: "run_rules (initial_state ns) (pre @ rule # post) = Inr s'"
      by (auto simp: apply_scoring_rules_def split: sum.splits)
    then obtain s1 where p: "run_rules (initial_state ns) pre = Inr s1"
      and q: "run_rules s1 (rule # post) = Inr s'"
      by (auto simp: run_rules_append split: sum.splits)
    from q obtain s2 where ar: "apply_rule s1 rule = Inr s2" by (auto split: sum.splits)
    have ids: "ruleIDs s1 = set (map ruleID pre)"
      using run_rules_ruleIDs[OF p] by (simp add: initial_state_def)
    show ?thesis using apply_rule_ruleIDs[OF ar] ids gen[OF fin] by simp
  qed
  show ?thesis using a b c d by blast
qed


theorem check_dependencies_enforced_witness:
  "apply_scoring_rules [blank_note 1]
     ([DefaultRule INITIAL_NMR {} NMR] @ DefaultRule GENERAL_CRH {GENERAL_CRNH} CRH # []) True
     = Inl DependencyViolation
   \<and> apply_scoring_rules [blank_note 1]
     ([DefaultRule INITIAL_NMR {} NMR] @ DefaultRule INITIAL_NMR {INITIAL_NMR} CRH # []) True
     = Inl DuplicateRule
   \<and> (\<exists>out. apply_scoring_rules [blank_note 1]
     ([DefaultRule INITIAL_NMR {} NMR] @ DefaultRule GENERAL_CRH {INITIAL_NMR} CRH # []) True
     = Inr out)
   \<and> dependencies (DefaultRule GENERAL_CRH {INITIAL_NMR} CRH)
       \<subseteq> set (map ruleID [DefaultRule INITIAL_NMR {} NMR])"
proof -
  let ?ns = "[blank_note 1]"
  let ?pre = "[DefaultRule INITIAL_NMR {} NMR]"
  obtain st where run: "run_rules (initial_state ?ns) ?pre = Inr st"
    by (simp add: engine_defs DefaultRule_def DefaultRule_score_notes_def)
  have a: "apply_scoring_rules ?ns (?pre @ DefaultRule GENERAL_CRH {GENERAL_CRNH} CRH # []) True
      = Inl DependencyViolation"
    using check_dependencies_enforced
      [of "DefaultRule GENERAL_CRH {GENERAL_CRNH} CRH" "{}" ?ns ?pre st "[]" True] run
    by (simp add: DefaultRule_def)
  have b: "apply_scoring_rules ?ns (?pre @ DefaultRule INITIAL_NMR {INITIAL_NMR} CRH # []) True
      = Inl DuplicateRule"
    using check_dependencies_enforced
      [of "DefaultRule INITIAL_NMR {INITIAL_NMR} CRH" "{}" ?ns ?pre st "[]" True] run
    by (simp add: DefaultRule_def)
  obtain out where ok: "apply_scoring_rules ?ns
      (?pre @ DefaultRule GENERAL_CRH {INITIAL_NMR} CRH # []) True = Inr out"
    by (simp add: engine_defs DefaultRule_def DefaultRule_score_notes_def example_defs)
  have c: "dependencies (DefaultRule GENERAL_CRH {INITIAL_NMR} CRH)
       \<subseteq> set (map ruleID ?pre)"
    using check_dependencies_enforced
      [of "DefaultRule GENERAL_CRH {INITIAL_NMR} CRH" "{}" ?ns ?pre st "[]" True out] ok
    by blast
  show ?thesis using a b c ok by blast
qed

subsection \<open>The loop: labels and attribution\<close>

lemma groupby_tail1_subset: "set (groupby_tail1 xs) \<subseteq> set xs"
  by (induction xs) auto

lemma groupby_tail1_keys: "set (map fst (groupby_tail1 xs)) = set (map fst xs)"
  by (induction xs) auto

lemma groupby_tail1_distinct: "distinct (map fst (groupby_tail1 xs))"
proof (induction xs)
  case Nil
  then show ?case by simp
next
  case (Cons x xs)
  have "fst x \<notin> set (map fst xs) \<Longrightarrow> fst x \<notin> set (map fst (groupby_tail1 xs))"
    using groupby_tail1_keys[of xs] by simp
  with Cons show ?case by simp
qed

lemma map_of_rev_distinct: "distinct (map fst xs) \<Longrightarrow> map_of (rev xs) = map_of xs"
  using map_of_inject_set[of "rev xs" xs] by (simp add: rev_map[symmetric])

lemma groupby_tail1_map_of: "map_of (groupby_tail1 xs) = map_of (rev xs)"
proof (induction xs)
  case Nil
  then show ?case by simp
next
  case (Cons x xs)
  show ?case
  proof (cases "fst x \<in> set (map fst xs)")
    case True
    then obtain v where "map_of (rev xs) (fst x) = Some v"
      by (metis map_of_eq_None_iff not_Some_eq set_map set_rev)
    then have "map_of (rev xs @ [x]) = map_of (rev xs)"
      by (cases x) (auto simp: map_add_def fun_eq_iff split: option.splits)
    with True Cons show ?thesis by simp
  next
    case False
    then have "map_of (rev xs) (fst x) = None"
      by (simp add: map_of_eq_None_iff)
    then have "map_of (rev xs @ [x]) = map_of (x # rev xs)"
      by (cases x) (auto simp: map_add_def fun_eq_iff split: option.splits)
    with False Cons show ?thesis by (cases x) simp
  qed
qed


lemma apply_rule_Inr:
  assumes "apply_rule st rule = Inr st'"
  obtains ns upd ac where
    "score_notes rule (noteStats st) (noteLabels st) = Inr (ns, upd, ac)"
    "dependencies rule - ruleIDs st = {}" "ruleID rule \<notin> ruleIDs st"
    "noteStats st' = ns"
    "noteLabels st' = groupby_tail1 (noteLabels st @ upd)"
    "noteRules st' = noteRules st @ map (\<lambda>u. (fst u, get_name (ruleID rule))) upd"
    "noteColumns st' = (case ac of None \<Rightarrow> noteColumns st | Some a \<Rightarrow> merge_outer (noteColumns st) a)"
    "\<And>a. ac = Some a \<Longrightarrow> set (cols (noteColumns st)) \<inter> set (cols a) = {}"
  using assms
  by (auto simp: apply_rule_def check_dependencies_def Let_def
           split: sum.splits if_splits option.splits prod.splits)

lemma emitted_Cons_Inr:
  assumes "apply_rule st rule = Inr st'"
  obtains e where "emitted st (rule # rules) = e # emitted st' rules"
    "by_rule e = ruleID rule"
    "noteLabels st' = groupby_tail1 (noteLabels st @ updates e)"
    "noteRules st' = noteRules st @ map (\<lambda>u. (fst u, get_name (by_rule e))) (updates e)"
    "noteColumns st' = (case added e of None \<Rightarrow> noteColumns st | Some a \<Rightarrow> merge_outer (noteColumns st) a)"
proof -
  from assms obtain ns upd ac where
    1: "score_notes rule (noteStats st) (noteLabels st) = Inr (ns, upd, ac)"
    "dependencies rule - ruleIDs st = {}" "ruleID rule \<notin> ruleIDs st"
    and 2: "noteLabels st' = groupby_tail1 (noteLabels st @ upd)"
    "noteRules st' = noteRules st @ map (\<lambda>u. (fst u, get_name (ruleID rule))) upd"
    "noteColumns st' = (case ac of None \<Rightarrow> noteColumns st | Some a \<Rightarrow> merge_outer (noteColumns st) a)"
    by (rule apply_rule_Inr)
  let ?e = "\<lparr>by_rule = ruleID rule, updates = upd, added = ac\<rparr>"
  have "emitted st (rule # rules) = ?e # emitted st' rules"
    using 1 assms by simp
  then show ?thesis using 2 that[of ?e] by simp
qed

text \<open>The rule names a run appends to \<^verbatim>\<open>noteRules\<close>, and the updates it merges.\<close>

lemma run_rules_emitted:
  assumes "run_rules st rules = Inr st'"
  shows "map by_rule (emitted st rules) = map ruleID rules"
    and "noteRules st' = noteRules st @
          concat (map (\<lambda>e. map (\<lambda>u. (fst u, get_name (by_rule e))) (updates e)) (emitted st rules))"
    and "map_of (rev (noteLabels st')) =
          map_of (rev (noteLabels st @ concat (map updates (emitted st rules))))"
    and "rules \<noteq> [] \<Longrightarrow> distinct (map fst (noteLabels st'))"
  using assms
proof (induction rules arbitrary: st)
  case Nil
  { case 1 then show ?case by simp }
  { case 2 then show ?case by simp }
  { case 3 then show ?case by simp }
  { case 4 then show ?case by simp }
next
  case (Cons rule rules)
  {
    fix st assume run: "run_rules st (rule # rules) = Inr st'"
    then obtain st1 where a: "apply_rule st rule = Inr st1" and r: "run_rules st1 rules = Inr st'"
      by (auto split: sum.splits)
    from a obtain e where e: "emitted st (rule # rules) = e # emitted st1 rules"
      "by_rule e = ruleID rule"
      "noteLabels st1 = groupby_tail1 (noteLabels st @ updates e)"
      "noteRules st1 = noteRules st @ map (\<lambda>u. (fst u, get_name (by_rule e))) (updates e)"
      by (rule emitted_Cons_Inr)
    have d1: "distinct (map fst (noteLabels st1))"
      by (simp add: e(3) groupby_tail1_distinct)
    have "map_of (rev (noteLabels st1)) = map_of (noteLabels st1)"
      by (rule map_of_rev_distinct[OF d1])
    also have "\<dots> = map_of (rev (noteLabels st @ updates e))"
      by (simp only: e(3) groupby_tail1_map_of)
    finally have "map_of (rev (noteLabels st1)) = map_of (rev (noteLabels st @ updates e))" .
    then have m: "map_of (rev (noteLabels st1 @ X)) = map_of (rev (noteLabels st @ updates e @ X))" for X
      by simp
    have "map by_rule (emitted st (rule # rules)) = map ruleID (rule # rules)"
      using Cons.IH(1)[OF r] e by simp
    moreover have "noteRules st' = noteRules st @
          concat (map (\<lambda>e. map (\<lambda>u. (fst u, get_name (by_rule e))) (updates e)) (emitted st (rule # rules)))"
      using Cons.IH(2)[OF r] e by simp
    moreover have "map_of (rev (noteLabels st')) =
          map_of (rev (noteLabels st @ concat (map updates (emitted st (rule # rules)))))"
      using Cons.IH(3)[OF r] e m by simp
    moreover have "distinct (map fst (noteLabels st'))"
    proof (cases rules)
      case Nil
      with r d1 show ?thesis by simp
    next
      case (Cons x xs)
      then show ?thesis using Cons.IH(4)[OF _ r] by simp
    qed
    ultimately have "map by_rule (emitted st (rule # rules)) = map ruleID (rule # rules)
      \<and> noteRules st' = noteRules st @
          concat (map (\<lambda>e. map (\<lambda>u. (fst u, get_name (by_rule e))) (updates e)) (emitted st (rule # rules)))
      \<and> map_of (rev (noteLabels st')) =
          map_of (rev (noteLabels st @ concat (map updates (emitted st (rule # rules)))))
      \<and> distinct (map fst (noteLabels st'))" by blast
  } note step = this
  { case 1 then show ?case using step by blast }
  { case 2 then show ?case using step by blast }
  { case 3 then show ?case using step by blast }
  { case 4 then show ?case using step by blast }
qed

lemma merge_inner_mem:
  "(x, v) \<in> set (merge_inner key xs ys) \<longleftrightarrow> x \<in> set xs \<and> (key x, v) \<in> set ys"
  by (force simp: merge_inner_def)

lemma merge_left_fst:
  assumes "p \<in> set (merge_left key xs ys)"
  shows "fst p \<in> set xs"
proof -
  from assms obtain x where x: "x \<in> set xs"
    and p: "p \<in> set (case filter (\<lambda>y. fst y = key x) ys of
                        [] \<Rightarrow> [(x, None)]
                      | m # ms \<Rightarrow> map (\<lambda>y. (x, Some (snd y))) (m # ms))"
    by (auto simp: merge_left_def)
  then show ?thesis by (cases "filter (\<lambda>y. fst y = key x) ys") auto
qed

lemma merge_left_covers: "x \<in> set xs \<Longrightarrow> \<exists>p\<in>set (merge_left key xs ys). fst p = x"
  by (cases "filter (\<lambda>y. fst y = key x) ys") (force simp: merge_left_def)+

lemma groupby_list_mem:
  "(k, vs) \<in> set (groupby_list xs) \<longleftrightarrow>
     k \<in> fst ` set xs \<and> vs = map snd (filter (\<lambda>p. fst p = k) xs)"
  by (auto simp: groupby_list_def)

lemma groupby_list_keys: "set (map fst (groupby_list xs)) = fst ` set xs"
  by (auto simp: groupby_list_def image_iff)

lemma condense_mem:
  "(k, ar, db) \<in> set (condense dec nr) \<longleftrightarrow>
     k \<in> fst ` set nr \<and>
     ar = str_join '','' (map snd (filter (\<lambda>p. fst p = k) nr)) \<and>
     db = (if dec then Some (last (map snd (filter (\<lambda>p. fst p = k) nr))) else None)"
  by (auto simp: condense_def groupby_list_def image_iff)

lemma condense_keys: "set (map fst (condense dec nr)) = fst ` set nr"
  by (auto simp: condense_def groupby_list_def image_iff)

text \<open>What the final block puts into a row of the output.\<close>

lemma finalize_row:
  assumes "finalize dec st = Inr out" and "r \<in> set out"
  shows "stats r \<in> set (noteStats st)"
    and "(noteId (stats r), ratingStatus r) \<in> set (noteLabels st)"
    and "noteId (stats r) \<in> fst ` set (noteRules st)"
    and "activeRules r =
           str_join '','' (map snd (filter (\<lambda>p. fst p = noteId (stats r)) (noteRules st)))"
    and "decidedBy r =
           (if dec then Some (last (map snd (filter (\<lambda>p. fst p = noteId (stats r)) (noteRules st))))
            else None)"
    and "currentlyRatedHelpfulBool r = (ratingStatus r = CRH)"
    and "currentlyRatedNotHelpfulBool r = (ratingStatus r = CRNH)"
    and "awaitingMoreRatingsBool r = (ratingStatus r = NMR)"
proof -
  let ?m = "merge_left (\<lambda>r. noteId (fst (fst r)))
              (merge_inner (\<lambda>r. noteId (fst r))
                 (merge_inner noteId (noteStats st) (noteLabels st))
                 (condense dec (noteRules st)))
              (rows (noteColumns st))"
  from assms(1) have out: "out = map scored_row ?m"
    by (simp add: finalize_def Let_def split: if_splits)
  with assms(2) obtain q where q: "q \<in> set ?m" and r: "r = scored_row q" by auto
  obtain n s ar db ex where qq: "q = (((n, s), (ar, db)), ex)"
    by (metis prod.exhaust)
  from merge_left_fst[OF q] have "((n, s), (ar, db)) \<in> set (merge_inner (\<lambda>r. noteId (fst r))
                 (merge_inner noteId (noteStats st) (noteLabels st))
                 (condense dec (noteRules st)))"
    by (simp add: qq)
  then have ns: "n \<in> set (noteStats st)" "(noteId n, s) \<in> set (noteLabels st)"
    and c: "(noteId n, ar, db) \<in> set (condense dec (noteRules st))"
    by (auto simp: merge_inner_mem)
  have rr: "stats r = n" "ratingStatus r = s" "activeRules r = ar" "decidedBy r = db"
    "currentlyRatedHelpfulBool r = (s = CRH)" "currentlyRatedNotHelpfulBool r = (s = CRNH)"
    "awaitingMoreRatingsBool r = (s = NMR)"
    by (simp_all add: r qq scored_row_def)
  show "stats r \<in> set (noteStats st)" using ns rr by simp
  show "(noteId (stats r), ratingStatus r) \<in> set (noteLabels st)" using ns rr by simp
  show "noteId (stats r) \<in> fst ` set (noteRules st)" using c rr by (simp add: condense_mem)
  show "activeRules r =
           str_join '','' (map snd (filter (\<lambda>p. fst p = noteId (stats r)) (noteRules st)))"
    using c rr by (simp add: condense_mem)
  show "decidedBy r =
           (if dec then Some (last (map snd (filter (\<lambda>p. fst p = noteId (stats r)) (noteRules st))))
            else None)"
    using c rr by (simp add: condense_mem)
  show "currentlyRatedHelpfulBool r = (ratingStatus r = CRH)" using rr by simp
  show "currentlyRatedNotHelpfulBool r = (ratingStatus r = CRNH)" using rr by simp
  show "awaitingMoreRatingsBool r = (ratingStatus r = NMR)" using rr by simp
qed

text \<open>Every row of \<^verbatim>\<open>noteStats\<close> is in the output, by the three validations.\<close>

lemma finalize_covers:
  assumes "finalize dec st = Inr out" and "n \<in> set (noteStats st)"
  shows "\<exists>r\<in>set out. stats r = n"
proof -
  let ?c = "condense dec (noteRules st)"
  let ?i = "merge_inner (\<lambda>r. noteId (fst r))
              (merge_inner noteId (noteStats st) (noteLabels st)) ?c"
  let ?m = "merge_left (\<lambda>r. noteId (fst (fst r))) ?i (rows (noteColumns st))"
  from assms(1) have out: "out = map scored_row ?m"
    and l: "set (map noteId (noteStats st)) = set (map fst (noteLabels st))"
    and c: "set (map noteId (noteStats st)) = set (map fst ?c)"
    by (simp_all add: finalize_def Let_def split: if_splits)
  from assms(2) l obtain s where s: "(noteId n, s) \<in> set (noteLabels st)" by force
  from assms(2) c obtain ar db where a: "(noteId n, ar, db) \<in> set ?c" by force
  have "((n, s), (ar, db)) \<in> set ?i" using assms(2) s a by (simp add: merge_inner_mem)
  from merge_left_covers[OF this] obtain p where p: "p \<in> set ?m" "fst p = ((n, s), (ar, db))"
    by blast
  then have "scored_row p \<in> set out" by (simp add: out)
  moreover have "stats (scored_row p) = n" using p(2) by (cases p) (simp add: scored_row_def)
  ultimately show ?thesis by blast
qed

lemma names_of_updates:
  "distinct (map fst us) \<Longrightarrow>
   map snd (filter (\<lambda>p. fst p = n) (map (\<lambda>u. (fst u, c)) us)) =
     (if n \<in> set (map fst us) then [c] else [])"
  by (induction us) (auto simp: image_iff)

lemma names_of_acting:
  assumes "\<forall>e\<in>set es. distinct (map fst (updates e))"
  shows "map snd (filter (\<lambda>p. fst p = n)
           (concat (map (\<lambda>e. map (\<lambda>u. (fst u, f e)) (updates e)) es))) =
         map f (acting n es)"
  using assms
proof (induction es)
  case Nil
  then show ?case by (simp add: acting_def)
next
  case (Cons e es)
  then have "distinct (map fst (updates e))" by simp
  from names_of_updates[OF this, of n "f e"] Cons show ?case
    by (simp add: acting_def)
qed

lemma last_update_wins:
  assumes "map_of (rev (concat (map updates es))) n = Some s"
  shows "acting n es \<noteq> [] \<and> map_of (rev (updates (last (acting n es)))) n = Some s"
  using assms
proof (induction es rule: rev_induct)
  case Nil
  then show ?case by simp
next
  case (snoc e es)
  show ?case
  proof (cases "n \<in> set (map fst (updates e))")
    case True
    then obtain v where v: "map_of (rev (updates e)) n = Some v"
      by (metis map_of_eq_None_iff not_Some_eq set_map set_rev)
    with snoc.prems have "v = s" by (simp add: map_add_def)
    with v True show ?thesis by (simp add: acting_def)
  next
    case False
    then have "map_of (rev (updates e)) n = None" by (simp add: map_of_eq_None_iff)
    with snoc.prems have "map_of (rev (concat (map updates es))) n = Some s"
      by (simp add: map_add_def)
    from snoc.IH[OF this] False show ?thesis by (simp add: acting_def)
  qed
qed

lemma acting_mem: "e \<in> set (acting n es) \<longleftrightarrow> e \<in> set es \<and> n \<in> set (map fst (updates e))"
  by (auto simp: acting_def)

subsection \<open>Joining and splitting rule names\<close>

lemma str_join_Cons: "xs \<noteq> [] \<Longrightarrow> str_join sep (x # xs) = x @ sep @ str_join sep xs"
  by (cases xs) auto

lemma str_join_nonempty: "xs \<noteq> [] \<Longrightarrow> hd xs \<noteq> [] \<Longrightarrow> str_join sep xs \<noteq> []"
  by (induction sep xs rule: str_join.induct) auto

lemma split_sep_nonempty: "split_sep c s \<noteq> []"
  by (induction s) auto

lemma split_sep_append:
  "c \<notin> set x \<Longrightarrow> split_sep c (x @ c # s) = x # split_sep c s"
  by (induction x) auto

lemma split_sep_single: "c \<notin> set x \<Longrightarrow> split_sep c x = [x]"
  by (induction x) auto

lemma split_join:
  "xs \<noteq> [] \<Longrightarrow> \<forall>x\<in>set xs. c \<notin> set x \<Longrightarrow> split_sep c (str_join [c] xs) = xs"
proof (induction xs)
  case Nil
  then show ?case by simp
next
  case (Cons x xs)
  show ?case
  proof (cases "xs = []")
    case True
    with Cons.prems show ?thesis by (simp add: split_sep_single)
  next
    case False
    with Cons show ?thesis by (simp add: str_join_Cons split_sep_append)
  qed
qed

lemma get_name_no_comma: "CHR '','' \<notin> set (get_name r)"
  by (cases r) (simp_all add: get_name_def rav_def)

lemma get_name_nonempty: "get_name r \<noteq> []"
  by (simp add: get_name_def)

subsection \<open>Example runs\<close>

lemmas rule_defs =
  DefaultRule_def DefaultRule_score_notes_def RejectLowIntercept_def
  RejectLowIntercept_score_notes_def ApplyModelResult_def ApplyModelResult_score_notes_def
  crhBlocked_def coreRejects_def expansionRejects_def col_lt_def col_gt_def col_le_def

lemmas ex_defs = blank_note_def ex_note1_def ex_note2_def mf_rules_def meta_rules_def out_row_def

lemma mf_run:
  "apply_scoring_rules [ex_note1, ex_note2] mf_rules True =
     Inr [out_row ex_note1 FIRM_REJECT ''InitialNMR (v1.0),RejectLowIntercept (v1.0)''
            (Some ''RejectLowIntercept (v1.0)''),
          out_row ex_note2 NMR ''InitialNMR (v1.0)'' (Some ''InitialNMR (v1.0)'')]"
  by (simp add: engine_defs rule_defs ex_defs insert_commute)

lemma mf_emitted:
  "emitted (initial_state [ex_note1, ex_note2]) mf_rules =
     [\<lparr>by_rule = INITIAL_NMR, updates = [(1, NMR), (2, NMR)], added = None\<rparr>,
      \<lparr>by_rule = LOW_INTERCEPT, updates = [(1, FIRM_REJECT)], added = None\<rparr>]"
  by (simp add: engine_defs rule_defs ex_defs insert_commute)

lemma meta_run:
  "apply_scoring_rules [ex_note1, ex_note2] meta_rules False =
     Inr [out_row ex_note1 NMR ''MetaInitialNMR (v1.0),CoreModel (v1.1)'' None,
          out_row ex_note2 CRH ''MetaInitialNMR (v1.0),CoreModel (v1.1)'' None]"
  by (simp add: engine_defs rule_defs ex_defs insert_commute)

lemma meta_emitted:
  "emitted (initial_state [ex_note1, ex_note2]) meta_rules =
     [\<lparr>by_rule = META_INITIAL_NMR, updates = [(1, NMR), (2, NMR)], added = None\<rparr>,
      \<lparr>by_rule = CORE_MODEL, updates = [(1, NMR), (2, CRH)], added = None\<rparr>]"
  by (simp add: engine_defs rule_defs ex_defs insert_commute)

subsection \<open>Output rows\<close>

text \<open>A row of the output of a run, read back through the loop.\<close>

lemma output_row:
  assumes run: "apply_scoring_rules ns rules dec = Inr out" and r: "r \<in> set out"
  shows "acting (noteId (stats r)) (emitted (initial_state ns) rules) \<noteq> []"
    and "map_of (rev (updates (last (acting (noteId (stats r)) (emitted (initial_state ns) rules)))))
           (noteId (stats r)) = Some (ratingStatus r)"
    and "activeRules r = str_join '','' (map snd (filter (\<lambda>p. fst p = noteId (stats r))
           (concat (map (\<lambda>e. map (\<lambda>u. (fst u, get_name (by_rule e))) (updates e))
              (emitted (initial_state ns) rules)))))"
    and "decidedBy r = (if dec then Some (last (map snd (filter (\<lambda>p. fst p = noteId (stats r))
           (concat (map (\<lambda>e. map (\<lambda>u. (fst u, get_name (by_rule e))) (updates e))
              (emitted (initial_state ns) rules)))))) else None)"
    and "map by_rule (emitted (initial_state ns) rules) = map ruleID rules"
proof -
  let ?es = "emitted (initial_state ns) rules"
  from run obtain st where st: "run_rules (initial_state ns) rules = Inr st"
    and fin: "finalize dec st = Inr out"
    by (auto simp: apply_scoring_rules_def split: sum.splits)
  have nr: "noteRules st =
      concat (map (\<lambda>e. map (\<lambda>u. (fst u, get_name (by_rule e))) (updates e)) ?es)"
    using run_rules_emitted(2)[OF st] by (simp add: initial_state_def)
  have lab: "map_of (rev (noteLabels st)) = map_of (rev (concat (map updates ?es)))"
    using run_rules_emitted(3)[OF st] by (simp add: initial_state_def)
  have nonempty: "rules \<noteq> []"
  proof
    assume "rules = []"
    with st have "st = initial_state ns" by simp
    then have "noteLabels st = []" by (simp add: initial_state_def)
    with finalize_row(2)[OF fin r] show False by simp
  qed
  have d: "distinct (map fst (noteLabels st))"
    by (rule run_rules_emitted(4)[OF st nonempty])
  have "map_of (noteLabels st) (noteId (stats r)) = Some (ratingStatus r)"
    using finalize_row(2)[OF fin r] d by simp
  then have "map_of (rev (concat (map updates ?es))) (noteId (stats r)) = Some (ratingStatus r)"
    using lab map_of_rev_distinct[OF d] by simp
  from last_update_wins[OF this]
  show "acting (noteId (stats r)) ?es \<noteq> []"
    and "map_of (rev (updates (last (acting (noteId (stats r)) ?es)))) (noteId (stats r))
           = Some (ratingStatus r)"
    by simp_all
  show "activeRules r = str_join '','' (map snd (filter (\<lambda>p. fst p = noteId (stats r))
           (concat (map (\<lambda>e. map (\<lambda>u. (fst u, get_name (by_rule e))) (updates e)) ?es))))"
    using finalize_row(4)[OF fin r] nr by simp
  show "decidedBy r = (if dec then Some (last (map snd (filter (\<lambda>p. fst p = noteId (stats r))
           (concat (map (\<lambda>e. map (\<lambda>u. (fst u, get_name (by_rule e))) (updates e)) ?es)))))
         else None)"
    using finalize_row(5)[OF fin r] nr by simp
  show "map by_rule ?es = map ruleID rules"
    by (rule run_rules_emitted(1)[OF st])
qed

text \<open>
  C2. In a run that returns, where every rule's status updates list a note at most once
  (the rule contract), take a note of the output and the rules that emitted an update
  for it, in rule order (the list of emissions is aligned with the rules list). The
  note's final status is the one emitted by the last of these rules, its rule column
  is the comma-join of their display names in that order, and the decided-by column,
  when requested, is the display name of the last of them, which is the last
  comma-separated token of the rule column.
\<close>

theorem last_rule_decides:
  assumes "apply_scoring_rules ns rules dec = Inr out"
    and "\<forall>e\<in>set (emitted (initial_state ns) rules). distinct (map fst (updates e))"
    and "r \<in> set out"
  shows "map by_rule (emitted (initial_state ns) rules) = map ruleID rules
     \<and> acting (noteId (stats r)) (emitted (initial_state ns) rules) \<noteq> []
     \<and> (noteId (stats r), ratingStatus r)
         \<in> set (updates (last (acting (noteId (stats r)) (emitted (initial_state ns) rules))))
     \<and> activeRules r = str_join '',''
         (map (\<lambda>e. get_name (by_rule e)) (acting (noteId (stats r)) (emitted (initial_state ns) rules)))
     \<and> decidedBy r =
         (if dec
          then Some (get_name (by_rule (last (acting (noteId (stats r)) (emitted (initial_state ns) rules)))))
          else None)
     \<and> (dec \<longrightarrow> decidedBy r = Some (last (split_sep CHR '','' (activeRules r))))"
proof -
  let ?es = "emitted (initial_state ns) rules"
  let ?a = "acting (noteId (stats r)) ?es"
  note row = output_row[OF assms(1,3)]
  have names: "map snd (filter (\<lambda>p. fst p = noteId (stats r))
           (concat (map (\<lambda>e. map (\<lambda>u. (fst u, get_name (by_rule e))) (updates e)) ?es)))
        = map (\<lambda>e. get_name (by_rule e)) ?a"
    by (rule names_of_acting[OF assms(2)])
  have ne: "?a \<noteq> []" by (rule row(1))
  have st: "(noteId (stats r), ratingStatus r) \<in> set (updates (last ?a))"
    using map_of_SomeD[OF row(2)] by simp
  have ar: "activeRules r = str_join '','' (map (\<lambda>e. get_name (by_rule e)) ?a)"
    using row(3) names by simp
  have db: "decidedBy r = (if dec then Some (get_name (by_rule (last ?a))) else None)"
    using row(4) names ne by (simp add: last_map)
  have "split_sep CHR '','' (activeRules r) = map (\<lambda>e. get_name (by_rule e)) ?a"
    unfolding ar using ne by (intro split_join) (auto simp: get_name_no_comma)
  then have tok: "dec \<longrightarrow> decidedBy r = Some (last (split_sep CHR '','' (activeRules r)))"
    using db ne by (simp add: last_map)
  show ?thesis using row(5) ne st ar db tok by blast
qed

theorem last_rule_decides_witness:
  "apply_scoring_rules [ex_note1, ex_note2] mf_rules True =
     Inr [out_row ex_note1 FIRM_REJECT ''InitialNMR (v1.0),RejectLowIntercept (v1.0)''
            (Some ''RejectLowIntercept (v1.0)''),
          out_row ex_note2 NMR ''InitialNMR (v1.0)'' (Some ''InitialNMR (v1.0)'')]
   \<and> map by_rule (acting 1 (emitted (initial_state [ex_note1, ex_note2]) mf_rules))
        = [INITIAL_NMR, LOW_INTERCEPT]
   \<and> (1, FIRM_REJECT)
        \<in> set (updates (last (acting 1 (emitted (initial_state [ex_note1, ex_note2]) mf_rules))))
   \<and> ''InitialNMR (v1.0),RejectLowIntercept (v1.0)'' = str_join '',''
         (map (\<lambda>e. get_name (by_rule e))
            (acting 1 (emitted (initial_state [ex_note1, ex_note2]) mf_rules)))
   \<and> Some ''RejectLowIntercept (v1.0)''
        = Some (last (split_sep CHR '','' ''InitialNMR (v1.0),RejectLowIntercept (v1.0)''))"
proof -
  let ?r = "out_row ex_note1 FIRM_REJECT ''InitialNMR (v1.0),RejectLowIntercept (v1.0)''
              (Some ''RejectLowIntercept (v1.0)'')"
  let ?es = "emitted (initial_state [ex_note1, ex_note2]) mf_rules"
  have uniq: "\<forall>e\<in>set ?es. distinct (map fst (updates e))"
    by (simp add: mf_emitted)
  have r: "?r \<in> set [?r, out_row ex_note2 NMR ''InitialNMR (v1.0)'' (Some ''InitialNMR (v1.0)'')]"
    by simp
  have id: "noteId (stats ?r) = 1" "ratingStatus ?r = FIRM_REJECT"
    "activeRules ?r = ''InitialNMR (v1.0),RejectLowIntercept (v1.0)''"
    "decidedBy ?r = Some ''RejectLowIntercept (v1.0)''"
    by (simp_all add: ex_defs)
  have a: "map by_rule (acting 1 ?es) = [INITIAL_NMR, LOW_INTERCEPT]"
    by (simp add: mf_emitted acting_def)
  note t = last_rule_decides[OF mf_run uniq r, unfolded id]
  from t have 1: "(1, FIRM_REJECT) \<in> set (updates (last (acting 1 ?es)))" by blast
  from t have 2: "''InitialNMR (v1.0),RejectLowIntercept (v1.0)'' = str_join '',''
         (map (\<lambda>e. get_name (by_rule e)) (acting 1 ?es))" by blast
  from t have 3: "Some ''RejectLowIntercept (v1.0)''
        = Some (last (split_sep CHR '','' ''InitialNMR (v1.0),RejectLowIntercept (v1.0)''))"
    by blast
  show ?thesis using mf_run a 1 2 3 by blast
qed

text \<open>
  C1, as the code has it. The driver rewrites no status: the status of every output row
  is a status that some rule of the run emitted for that note. So every output status is
  one of CRH, CRNH, NMR when every status the rules emitted is (as the statuses
  \<^verbatim>\<open>ApplyModelResult\<close> emits are, by its own rewriting of FIRM_REJECT); a FIRM_REJECT
  that \<^verbatim>\<open>RejectLowIntercept\<close> emits and no later rule overwrites is in the output.
\<close>

theorem output_status_as_emitted:
  assumes "apply_scoring_rules ns rules dec = Inr out" and "r \<in> set out"
  shows "(\<exists>e\<in>set (emitted (initial_state ns) rules).
            (noteId (stats r), ratingStatus r) \<in> set (updates e))
     \<and> ((\<forall>e\<in>set (emitted (initial_state ns) rules). \<forall>u\<in>set (updates e). snd u \<in> {CRH, CRNH, NMR})
          \<longrightarrow> ratingStatus r \<in> {CRH, CRNH, NMR})"
proof -
  let ?es = "emitted (initial_state ns) rules"
  let ?a = "acting (noteId (stats r)) ?es"
  note row = output_row[OF assms]
  have "last ?a \<in> set ?a" using row(1) by simp
  then have e: "last ?a \<in> set ?es" by (simp add: acting_mem)
  have u: "(noteId (stats r), ratingStatus r) \<in> set (updates (last ?a))"
    using map_of_SomeD[OF row(2)] by simp
  show ?thesis using e u by force
qed

theorem output_status_as_emitted_witness:
  "apply_scoring_rules [ex_note1, ex_note2] meta_rules False =
     Inr [out_row ex_note1 NMR ''MetaInitialNMR (v1.0),CoreModel (v1.1)'' None,
          out_row ex_note2 CRH ''MetaInitialNMR (v1.0),CoreModel (v1.1)'' None]
   \<and> list_all (\<lambda>e. list_all (\<lambda>u. snd u \<in> {CRH, CRNH, NMR}) (updates e))
        (emitted (initial_state [ex_note1, ex_note2]) meta_rules)
   \<and> ratingStatus (out_row ex_note1 NMR ''MetaInitialNMR (v1.0),CoreModel (v1.1)'' None)
        \<in> {CRH, CRNH, NMR}"
proof -
  let ?r = "out_row ex_note1 NMR ''MetaInitialNMR (v1.0),CoreModel (v1.1)'' None"
  have h: "\<forall>e\<in>set (emitted (initial_state [ex_note1, ex_note2]) meta_rules).
      \<forall>u\<in>set (updates e). snd u \<in> {CRH, CRNH, NMR}"
    by (simp add: meta_emitted)
  have r: "?r \<in> set [?r, out_row ex_note2 CRH ''MetaInitialNMR (v1.0),CoreModel (v1.1)'' None]"
    by simp
  from output_status_as_emitted[OF meta_run r] h
  have "ratingStatus ?r \<in> {CRH, CRNH, NMR}" by blast
  moreover have "list_all (\<lambda>e. list_all (\<lambda>u. snd u \<in> {CRH, CRNH, NMR}) (updates e))
        (emitted (initial_state [ex_note1, ex_note2]) meta_rules)"
    by (simp add: meta_emitted)
  ultimately show ?thesis using meta_run by simp
qed

text \<open>
  C1, as stated, fails: the default rule followed by \<^verbatim>\<open>RejectLowIntercept\<close> returns
  a row whose status is FIRM_REJECT.
\<close>

theorem firm_reject_reaches_output:
  "map_sum id (map ratingStatus) (apply_scoring_rules [ex_note1, ex_note2] mf_rules True)
     = Inr [FIRM_REJECT, NMR]"
  by (simp add: mf_run out_row_def)

subsection \<open>What a rule leaves of the table it is handed\<close>

lemma DefaultRule_frame:
  "DefaultRule_score_notes s ns ls = Inr (ns', upd, ac) \<Longrightarrow> ns' = ns"
  by (auto simp: DefaultRule_score_notes_def)

lemma RuleFromFunction_frame:
  "RuleFromFunction_score_notes s f m ns ls = Inr (ns', upd, ac) \<Longrightarrow> ns' = ns"
  by (auto simp: RuleFromFunction_score_notes_def Let_def)

lemma ApplyModelResult_frame:
  "ApplyModelResult_score_notes src chk fcp ns ls = Inr (ns', upd, ac) \<Longrightarrow> ns' = ns"
  by (auto simp: ApplyModelResult_score_notes_def Let_def split: if_splits)

lemma RejectLowIntercept_frame:
  "RejectLowIntercept_score_notes s thr ns ls = Inr (ns', upd, ac) \<Longrightarrow> ns' = ns"
  by (auto simp: RejectLowIntercept_score_notes_def Let_def)

lemma NmrDueToMinStableCrhTime_frame:
  "NmrDueToMinStableCrhTime_score_notes now thr ns ls = Inr (ns', upd, ac) \<Longrightarrow> ns' = ns"
  by (auto simp: NmrDueToMinStableCrhTime_score_notes_def Let_def split: if_splits)

lemma ApplyGroupModelResult_frame:
  "ApplyGroupModelResult_score_notes g c e m ns ls = Inr (ns', upd, ac) \<Longrightarrow> ns' = ns"
  by (auto simp: ApplyGroupModelResult_score_notes_def Let_def split: if_splits)

lemma assert_no_duplicates_frame:
  "assert_no_duplicates s ns xs = Inr (ns', upd, ac) \<Longrightarrow> ns' = ns"
  by (auto simp: assert_no_duplicates_def split: if_splits)

lemma FilterTagOutliers_frame:
  "FilterTagOutliers_score_notes order off s th m ns ls = Inr (ns', upd, ac) \<Longrightarrow> ns' = ns"
  by (auto simp: FilterTagOutliers_score_notes_def Let_def split: if_splits)

lemma FilterIncorrect_frame:
  "FilterIncorrect_score_notes s a b c ns ls = Inr (ns', upd, ac) \<Longrightarrow> ns' = ns"
  unfolding FilterIncorrect_score_notes_def by (rule assert_no_duplicates_frame)

lemma FilterLowDiligence_frame:
  "FilterLowDiligence_score_notes s thr ns ls = Inr (ns', upd, ac) \<Longrightarrow> ns' = ns"
  unfolding FilterLowDiligence_score_notes_def by (rule assert_no_duplicates_frame)

lemma FilterLargeFactor_frame:
  "FilterLargeFactor_score_notes s thr ns ls = Inr (ns', upd, ac) \<Longrightarrow> ns' = ns"
  unfolding FilterLargeFactor_score_notes_def by (rule assert_no_duplicates_frame)

lemma NMtoCRNH_frame:
  "NMtoCRNH_score_notes s thr ns ls = Inr (ns', upd, ac) \<Longrightarrow> ns' = ns"
  by (auto simp: NMtoCRNH_score_notes_def)

lemma AddCRHInertia_frame:
  "AddCRHInertia_score_notes s thr mx k ns ls = Inr (ns', upd, ac) \<Longrightarrow> ns' = ns"
  by (auto simp: AddCRHInertia_score_notes_def Let_def split: if_splits)

lemma ScoringDriftGuard_frame:
  "ScoringDriftGuard_score_notes locked ns ls = Inr (ns', upd, ac) \<Longrightarrow> ns' = ns"
  by (auto simp: ScoringDriftGuard_score_notes_def Let_def)

lemma ApplyTopicModelResult_frame:
  "ApplyTopicModelResult_score_notes topic it ft ns ls = Inr (ns', upd, ac) \<Longrightarrow> ns' = ns"
  by (auto simp: ApplyTopicModelResult_score_notes_def Let_def)

text \<open>A row with its two tag columns blanked: what the tag assignments cannot change.\<close>

lemma set_top_tags_frame:
  "set_top_tags tt ns = Inr ns' \<Longrightarrow>
   map (\<lambda>n. n\<lparr>firstTag := None, secondTag := None\<rparr>) ns' =
   map (\<lambda>n. n\<lparr>firstTag := None, secondTag := None\<rparr>) ns"
  by (auto simp: set_top_tags_def split: if_splits option.splits)

lemma assign_top_tags_frame:
  "map (\<lambda>n. n\<lparr>firstTag := None, secondTag := None\<rparr>) (assign_top_tags tt ns) =
   map (\<lambda>n. n\<lparr>firstTag := None, secondTag := None\<rparr>) ns"
  by (auto simp: assign_top_tags_def split: option.splits)

lemma InsufficientExplanation_frame:
  assumes "InsufficientExplanation_score_notes sel ho nho s a b tc ns ls = Inr (ns', upd, ac)"
  shows "map (\<lambda>n. n\<lparr>firstTag := None, secondTag := None\<rparr>) ns' =
         map (\<lambda>n. n\<lparr>firstTag := None, secondTag := None\<rparr>) ns"
proof (cases tc)
  case None
  with assms obtain ns1 where
    1: "set_top_tags (sel (filter (\<lambda>n. noteId n \<in> set (map fst (filter (\<lambda>l. snd l = CRH) ls))) ns)
          b a ho) ns = Inr ns1"
    and 2: "set_top_tags (sel (filter (\<lambda>n. noteId n \<in> set (map fst (filter (\<lambda>l. snd l = CRNH) ls))) ns1)
          a b nho) ns1 = Inr ns'"
    by (auto simp: InsufficientExplanation_score_notes_def Let_def split: sum.splits if_splits)
  from set_top_tags_frame[OF 1] set_top_tags_frame[OF 2] show ?thesis by simp
next
  case (Some tags)
  with assms have "ns' = assign_top_tags (sel ns a b tags) ns"
    by (auto simp: InsufficientExplanation_score_notes_def Let_def split: sum.splits if_splits)
  then show ?thesis by (simp add: assign_top_tags_frame)
qed

lemma blanked_tags_ids:
  assumes "map (\<lambda>n. n\<lparr>firstTag := None, secondTag := None\<rparr>) ns' =
           map (\<lambda>n. n\<lparr>firstTag := None, secondTag := None\<rparr>) (ns :: note_row list)"
  shows "map noteId ns' = map noteId ns"
proof -
  have "map noteId xs = map noteId (map (\<lambda>n. n\<lparr>firstTag := None, secondTag := None\<rparr>) xs)"
    for xs :: "note_row list" by simp
  then show ?thesis using assms by metis
qed

lemma keeps_note_ids_simple:
  "(\<And>ns ls ns' upd ac. score_notes rule ns ls = Inr (ns', upd, ac) \<Longrightarrow> ns' = ns)
     \<Longrightarrow> keeps_note_ids rule"
  unfolding keeps_note_ids_def by blast

lemma keeps_note_ids_rules:
  "keeps_note_ids (DefaultRule rid deps s)"
  "keeps_note_ids (RuleFromFunction rid deps s f m)"
  "keeps_note_ids (ApplyModelResult rid deps src chk fcp)"
  "keeps_note_ids (RejectLowIntercept rid deps s thr)"
  "keeps_note_ids (NmrDueToMinStableCrhTime rid deps now t)"
  "keeps_note_ids (ApplyGroupModelResult rid deps g c e ms)"
  "keeps_note_ids (InsufficientExplanation sel ho nho rid deps s a b tc)"
  "keeps_note_ids (FilterTagOutliers order off rid deps s th mt)"
  "keeps_note_ids (FilterIncorrect rid deps s ta tb tw)"
  "keeps_note_ids (FilterLowDiligence rid deps s thr)"
  "keeps_note_ids (FilterLargeFactor rid deps s thr)"
  "keeps_note_ids (NMtoCRNH rid deps s thr)"
  "keeps_note_ids (AddCRHInertia rid deps s thr mx k)"
  "keeps_note_ids (ScoringDriftGuard rid deps locked)"
  "keeps_note_ids (ApplyTopicModelResult rid deps topic it ft)"
proof -
  show "keeps_note_ids (FilterTagOutliers order off rid deps s th mt)"
    by (rule keeps_note_ids_simple) (simp add: FilterTagOutliers_def FilterTagOutliers_frame)
  show "keeps_note_ids (FilterIncorrect rid deps s ta tb tw)"
    by (rule keeps_note_ids_simple) (simp add: FilterIncorrect_def FilterIncorrect_frame)
  show "keeps_note_ids (FilterLowDiligence rid deps s thr)"
    by (rule keeps_note_ids_simple) (simp add: FilterLowDiligence_def FilterLowDiligence_frame)
  show "keeps_note_ids (FilterLargeFactor rid deps s thr)"
    by (rule keeps_note_ids_simple) (simp add: FilterLargeFactor_def FilterLargeFactor_frame)
  show "keeps_note_ids (NMtoCRNH rid deps s thr)"
    by (rule keeps_note_ids_simple) (simp add: NMtoCRNH_def NMtoCRNH_frame)
  show "keeps_note_ids (AddCRHInertia rid deps s thr mx k)"
    by (rule keeps_note_ids_simple) (simp add: AddCRHInertia_def AddCRHInertia_frame)
  show "keeps_note_ids (ScoringDriftGuard rid deps locked)"
    by (rule keeps_note_ids_simple) (simp add: ScoringDriftGuard_def ScoringDriftGuard_frame)
  show "keeps_note_ids (ApplyTopicModelResult rid deps topic it ft)"
    by (rule keeps_note_ids_simple)
       (simp add: ApplyTopicModelResult_def ApplyTopicModelResult_frame)
  show "keeps_note_ids (DefaultRule rid deps s)"
    by (rule keeps_note_ids_simple) (simp add: DefaultRule_def DefaultRule_frame)
  show "keeps_note_ids (RuleFromFunction rid deps s f m)"
    by (rule keeps_note_ids_simple) (simp add: RuleFromFunction_def RuleFromFunction_frame)
  show "keeps_note_ids (ApplyModelResult rid deps src chk fcp)"
    by (rule keeps_note_ids_simple) (simp add: ApplyModelResult_def ApplyModelResult_frame)
  show "keeps_note_ids (RejectLowIntercept rid deps s thr)"
    by (rule keeps_note_ids_simple) (simp add: RejectLowIntercept_def RejectLowIntercept_frame)
  show "keeps_note_ids (NmrDueToMinStableCrhTime rid deps now t)"
    by (rule keeps_note_ids_simple)
       (simp add: NmrDueToMinStableCrhTime_def NmrDueToMinStableCrhTime_frame)
  show "keeps_note_ids (ApplyGroupModelResult rid deps g c e ms)"
    by (rule keeps_note_ids_simple)
       (simp add: ApplyGroupModelResult_def ApplyGroupModelResult_frame)
  show "keeps_note_ids (InsufficientExplanation sel ho nho rid deps s a b tc)"
    unfolding keeps_note_ids_def
  proof (intro allI impI)
    fix ns ls ns' upd ac
    assume "score_notes (InsufficientExplanation sel ho nho rid deps s a b tc) ns ls
              = Inr (ns', upd, ac)"
    then have "InsufficientExplanation_score_notes sel ho nho s a b tc ns ls = Inr (ns', upd, ac)"
      by (simp add: InsufficientExplanation_def)
    from blanked_tags_ids[OF InsufficientExplanation_frame[OF this]]
    show "map noteId ns' = map noteId ns" .
  qed
qed

lemma run_rules_note_ids:
  "run_rules st rules = Inr st' \<Longrightarrow> \<forall>rule\<in>set rules. keeps_note_ids rule \<Longrightarrow>
   map noteId (noteStats st') = map noteId (noteStats st)"
proof (induction rules arbitrary: st)
  case Nil
  then show ?case by simp
next
  case (Cons rule rules)
  then obtain st1 where a: "apply_rule st rule = Inr st1" and r: "run_rules st1 rules = Inr st'"
    by (auto split: sum.splits)
  from a obtain ns upd ac where
    "score_notes rule (noteStats st) (noteLabels st) = Inr (ns, upd, ac)" "noteStats st1 = ns"
    by (rule apply_rule_Inr)
  moreover have "keeps_note_ids rule" using Cons.prems by simp
  ultimately have "map noteId (noteStats st1) = map noteId (noteStats st)"
    unfolding keeps_note_ids_def by blast
  with Cons.IH[OF r] Cons.prems show ?case by simp
qed

subsection \<open>Coverage\<close>

lemma merge_outer_cols: "cols (merge_outer a b) = cols a @ cols b"
  by (simp add: merge_outer_def)

lemma noteRules_names_nonempty:
  assumes "run_rules (initial_state ns) rules = Inr st" and "p \<in> set (noteRules st)"
  shows "snd p \<noteq> []"
proof -
  have "noteRules st = concat (map (\<lambda>e. map (\<lambda>u. (fst u, get_name (by_rule e))) (updates e))
          (emitted (initial_state ns) rules))"
    using run_rules_emitted(2)[OF assms(1)] by (simp add: initial_state_def)
  with assms(2) have "\<exists>rid. snd p = get_name rid" by auto
  then show ?thesis using get_name_nonempty by metis
qed

text \<open>
  C3. For a rules list whose rules leave the \<^verbatim>\<open>noteId\<close> column of \<^verbatim>\<open>noteStats\<close>
  alone (every rule of the source does), the table that \<^verbatim>\<open>apply_scoring_rules\<close> returns
  has the NoteId set of the input \<^verbatim>\<open>noteStats\<close> and as many rows, and every row has a
  non-empty rule column. The default rule emits one status update per input row, in
  the order of the rows.
\<close>

theorem coverage:
  assumes "apply_scoring_rules ns rules dec = Inr out"
    and "\<forall>rule\<in>set rules. keeps_note_ids rule"
  shows "set (map (\<lambda>r. noteId (stats r)) out) = set (map noteId ns)
     \<and> (\<forall>r\<in>set out. activeRules r \<noteq> [])
     \<and> length out = length ns
     \<and> (\<exists>upd. score_notes (DefaultRule rid deps s) ns ls = Inr (ns, upd, None)
               \<and> map fst upd = map noteId ns)"
proof -
  from assms(1) obtain st where st: "run_rules (initial_state ns) rules = Inr st"
    and fin: "finalize dec st = Inr out"
    by (auto simp: apply_scoring_rules_def split: sum.splits)
  have ids: "map noteId (noteStats st) = map noteId ns"
    using run_rules_note_ids[OF st assms(2)] by (simp add: initial_state_def)
  have "set (map (\<lambda>r. noteId (stats r)) out) = set (map noteId (noteStats st))"
    using finalize_row(1)[OF fin] finalize_covers[OF fin] by force
  then have a: "set (map (\<lambda>r. noteId (stats r)) out) = set (map noteId ns)"
    using ids by simp
  have b: "activeRules r \<noteq> []" if r: "r \<in> set out" for r
  proof -
    let ?names = "map snd (filter (\<lambda>p. fst p = noteId (stats r)) (noteRules st))"
    have ne: "?names \<noteq> []" using finalize_row(3)[OF fin r] by (force simp: filter_empty_conv)
    then have "hd ?names \<in> set ?names" by (rule hd_in_set)
    then obtain p where "p \<in> set (noteRules st)" "hd ?names = snd p" by auto
    then have "hd ?names \<noteq> []" using noteRules_names_nonempty[OF st] by simp
    with ne show ?thesis
      unfolding finalize_row(4)[OF fin r] by (rule str_join_nonempty)
  qed
  have "length out = length (noteStats st)"
    using fin by (auto simp: finalize_def Let_def split: if_splits)
  also have "\<dots> = length ns" using ids by (metis length_map)
  finally have c: "length out = length ns" .
  have d: "\<exists>upd. score_notes (DefaultRule rid deps s) ns ls = Inr (ns, upd, None)
               \<and> map fst upd = map noteId ns"
    by (simp add: DefaultRule_def DefaultRule_score_notes_def comp_def)
  show ?thesis using a b c d by blast
qed

theorem coverage_witness:
  "apply_scoring_rules [ex_note1, ex_note2] meta_rules False =
     Inr [out_row ex_note1 NMR ''MetaInitialNMR (v1.0),CoreModel (v1.1)'' None,
          out_row ex_note2 CRH ''MetaInitialNMR (v1.0),CoreModel (v1.1)'' None]
   \<and> set (map (\<lambda>r. noteId (stats r))
        [out_row ex_note1 NMR ''MetaInitialNMR (v1.0),CoreModel (v1.1)'' None,
         out_row ex_note2 CRH ''MetaInitialNMR (v1.0),CoreModel (v1.1)'' None])
      = set (map noteId [ex_note1, ex_note2])
   \<and> activeRules (out_row ex_note1 NMR ''MetaInitialNMR (v1.0),CoreModel (v1.1)'' None) \<noteq> []"
proof -
  have k: "\<forall>rule\<in>set meta_rules. keeps_note_ids rule"
    by (simp add: meta_rules_def keeps_note_ids_rules)
  from coverage[OF meta_run k, of META_INITIAL_NMR "{}" NMR "[]"] meta_run
  show ?thesis by simp
qed

subsection \<open>Additional columns\<close>

lemma apply_rule_cols:
  assumes "apply_rule st rule = Inr st'"
  shows "set (cols (noteColumns st)) \<subseteq> set (cols (noteColumns st'))"
proof -
  from assms obtain e :: emission where
    "noteColumns st' = (case added e of None \<Rightarrow> noteColumns st
                        | Some a \<Rightarrow> merge_outer (noteColumns st) a)"
    by (rule emitted_Cons_Inr)
  then show ?thesis by (cases "added e") (auto simp: merge_outer_cols)
qed

lemma apply_rule_added_cols:
  assumes "apply_rule st rule = Inr st'"
    and "emitted st (rule # rules) ! 0 = e" and "added e = Some a"
  shows "set (cols a) \<subseteq> set (cols (noteColumns st'))"
proof -
  from assms(1) obtain e' :: emission where e': "emitted st (rule # rules) = e' # emitted st' rules"
    "noteColumns st' = (case added e' of None \<Rightarrow> noteColumns st
                        | Some a \<Rightarrow> merge_outer (noteColumns st) a)"
    by (rule emitted_Cons_Inr)
  with assms(2) have "e' = e" by simp
  with e'(2) assms(3) show ?thesis by (simp add: merge_outer_cols)
qed

text \<open>
  A rule that adds a column already among the accumulated columns stops the loop with
  an error.
\<close>

lemma emitted_Cons_cases:
  assumes "emitted st (rule # rules) \<noteq> []"
  obtains ns upd ac where
    "dependencies rule \<subseteq> ruleIDs st" "ruleID rule \<notin> ruleIDs st"
    "score_notes rule (noteStats st) (noteLabels st) = Inr (ns, upd, ac)"
    "emitted st (rule # rules) = \<lparr>by_rule = ruleID rule, updates = upd, added = ac\<rparr> #
       (case apply_rule st rule of Inl e \<Rightarrow> [] | Inr st' \<Rightarrow> emitted st' rules)"
  using assms by (auto split: if_splits sum.splits)

lemma apply_rule_shared_column:
  assumes "dependencies rule \<subseteq> ruleIDs st" "ruleID rule \<notin> ruleIDs st"
    "score_notes rule (noteStats st) (noteLabels st) = Inr (ns, upd, Some b)"
    "set (cols (noteColumns st)) \<inter> set (cols b) \<noteq> {}"
  shows "apply_rule st rule = Inl SharedExtrasColumn \<or> apply_rule st rule = Inl ExtrasKeyMismatch"
  using assms by (auto simp: apply_rule_def check_dependencies_def Let_def)

lemma shared_with_accumulated:
  assumes "j < length (emitted st rules)" and "added (emitted st rules ! j) = Some b"
    and "set (cols (noteColumns st)) \<inter> set (cols b) \<noteq> {}"
  shows "run_rules st rules = Inl SharedExtrasColumn \<or> run_rules st rules = Inl ExtrasKeyMismatch"
  using assms
proof (induction rules arbitrary: st j)
  case Nil
  then show ?case by simp
next
  case (Cons rule rules)
  from Cons.prems(1) have ne: "emitted st (rule # rules) \<noteq> []"
    by (metis list.size(3) not_less_zero)
  then obtain ns upd ac where c:
    "dependencies rule \<subseteq> ruleIDs st" "ruleID rule \<notin> ruleIDs st"
    "score_notes rule (noteStats st) (noteLabels st) = Inr (ns, upd, ac)"
    "emitted st (rule # rules) = \<lparr>by_rule = ruleID rule, updates = upd, added = ac\<rparr> #
       (case apply_rule st rule of Inl e \<Rightarrow> [] | Inr st' \<Rightarrow> emitted st' rules)"
    by (rule emitted_Cons_cases)
  show ?case
  proof (cases j)
    case 0
    with Cons.prems(2) c(4) have "ac = Some b" by simp
    from apply_rule_shared_column[OF c(1,2) c(3)[unfolded this] Cons.prems(3)]
    show ?thesis by auto
  next
    case (Suc j')
    show ?thesis
    proof (cases "apply_rule st rule")
      case (Inl e)
      with c(4) Cons.prems(1) Suc show ?thesis by simp
    next
      case (Inr st1)
      with c(4) have es: "emitted st (rule # rules) = 
          \<lparr>by_rule = ruleID rule, updates = upd, added = ac\<rparr> # emitted st1 rules" by simp
      have 1: "j' < length (emitted st1 rules)" using Cons.prems(1) es Suc by simp
      have 2: "added (emitted st1 rules ! j') = Some b" using Cons.prems(2) es Suc by simp
      have 3: "set (cols (noteColumns st1)) \<inter> set (cols b) \<noteq> {}"
        using apply_rule_cols[OF Inr] Cons.prems(3) by blast
      from Cons.IH[OF 1 2 3] Inr show ?thesis by simp
    qed
  qed
qed

lemma shared_between_rules:
  assumes "i < j" and "j < length (emitted st rules)"
    and "added (emitted st rules ! i) = Some a" and "added (emitted st rules ! j) = Some b"
    and "set (cols a) \<inter> set (cols b) \<noteq> {}"
  shows "run_rules st rules = Inl SharedExtrasColumn \<or> run_rules st rules = Inl ExtrasKeyMismatch"
  using assms
proof (induction rules arbitrary: st i j)
  case Nil
  then show ?case by simp
next
  case (Cons rule rules)
  from Cons.prems(2) have ne: "emitted st (rule # rules) \<noteq> []"
    by (metis list.size(3) not_less_zero)
  then obtain ns upd ac where
    "score_notes rule (noteStats st) (noteLabels st) = Inr (ns, upd, ac)"
    and c: "emitted st (rule # rules) = \<lparr>by_rule = ruleID rule, updates = upd, added = ac\<rparr> #
       (case apply_rule st rule of Inl e \<Rightarrow> [] | Inr st' \<Rightarrow> emitted st' rules)"
    by (rule emitted_Cons_cases)
  from Cons.prems(1) obtain j' where j: "j = Suc j'" by (cases j) auto
  show ?case
  proof (cases "apply_rule st rule")
    case (Inl e)
    with c Cons.prems(2) j show ?thesis by simp
  next
    case (Inr st1)
    with c have es: "emitted st (rule # rules) = 
        \<lparr>by_rule = ruleID rule, updates = upd, added = ac\<rparr> # emitted st1 rules" by simp
    have 1: "j' < length (emitted st1 rules)" using Cons.prems(2) es j by simp
    have 2: "added (emitted st1 rules ! j') = Some b" using Cons.prems(4) es j by simp
    show ?thesis
    proof (cases i)
      case 0
      with Cons.prems(3) es have "ac = Some a" by simp
      then have "set (cols a) \<subseteq> set (cols (noteColumns st1))"
        using apply_rule_added_cols[OF Inr, of rules _ a] es by simp
      with Cons.prems(5) have 3: "set (cols (noteColumns st1)) \<inter> set (cols b) \<noteq> {}" by blast
      from shared_with_accumulated[OF 1 2 3] Inr show ?thesis by simp
    next
      case (Suc i')
      have "i' < j'" using Cons.prems(1) Suc j by simp
      moreover have "added (emitted st1 rules ! i') = Some a" using Cons.prems(3) es Suc by simp
      ultimately show ?thesis using Cons.IH[OF _ 1 _ 2 Cons.prems(5)] Inr by simp
    qed
  qed
qed

lemmas nmr_defs =
  NmrDueToMinStableCrhTime_def NmrDueToMinStableCrhTime_score_notes_def loc_assign_def
  ts_exists_def

lemma clash_emitted:
  "emitted (initial_state [ex_note3]) clash_rules =
     [\<lparr>by_rule = INITIAL_NMR, updates = [(3, CRH)], added = None\<rparr>,
      \<lparr>by_rule = NMR_DUE_TO_MIN_STABLE_CRH_TIME, updates = [(3, NMR)],
       added = Some \<lparr>cols = [''updatedTimestampMillisOfNmrDueToMinStableCrhTime''],
                     rows = [(3, [IntCell 1000000])]\<rparr>\<rparr>,
      \<lparr>by_rule = GENERAL_CRH_INERTIA, updates = [],
       added = Some \<lparr>cols = [''updatedTimestampMillisOfNmrDueToMinStableCrhTime''],
                     rows = []\<rparr>\<rparr>]"
  by (simp add: engine_defs rule_defs nmr_defs blank_note_def ex_note3_def clash_rules_def
        insert_commute)

text \<open>
  C9. If two rules of one run both return additional columns and the two tables share a
  column name other than the key, the run fails with an error: the shared-column
  assertion, or the key-set assertion of the second rule where that fails first. No
  column is merged or overwritten.
\<close>

theorem shared_extras_column_fails:
  assumes "i < j" and "j < length (emitted (initial_state ns) rules)"
    and "added (emitted (initial_state ns) rules ! i) = Some a"
    and "added (emitted (initial_state ns) rules ! j) = Some b"
    and "set (cols a) \<inter> set (cols b) \<noteq> {}"
  shows "apply_scoring_rules ns rules dec = Inl SharedExtrasColumn
       \<or> apply_scoring_rules ns rules dec = Inl ExtrasKeyMismatch"
  using shared_between_rules[OF assms] by (auto simp: apply_scoring_rules_def)

theorem shared_extras_column_fails_witness:
  "added (emitted (initial_state [ex_note3]) clash_rules ! 1) =
     Some \<lparr>cols = [''updatedTimestampMillisOfNmrDueToMinStableCrhTime''],
           rows = [(3, [IntCell 1000000])]\<rparr>
   \<and> added (emitted (initial_state [ex_note3]) clash_rules ! 2) =
     Some \<lparr>cols = [''updatedTimestampMillisOfNmrDueToMinStableCrhTime''], rows = []\<rparr>
   \<and> (apply_scoring_rules [ex_note3] clash_rules False = Inl SharedExtrasColumn
        \<or> apply_scoring_rules [ex_note3] clash_rules False = Inl ExtrasKeyMismatch)"
proof -
  let ?a = "\<lparr>cols = [''updatedTimestampMillisOfNmrDueToMinStableCrhTime''],
             rows = [(3, [IntCell 1000000])]\<rparr>"
  let ?b = "\<lparr>cols = [''updatedTimestampMillisOfNmrDueToMinStableCrhTime''],
             rows = [] :: (int \<times> cell list) list\<rparr>"
  have j: "2 < length (emitted (initial_state [ex_note3]) clash_rules)"
    by (simp add: clash_emitted)
  have a: "added (emitted (initial_state [ex_note3]) clash_rules ! 1) = Some ?a"
    by (simp add: clash_emitted)
  have b: "added (emitted (initial_state [ex_note3]) clash_rules ! 2) = Some ?b"
    by (simp add: clash_emitted)
  have c: "set (cols ?a) \<inter> set (cols ?b) \<noteq> {}" by simp
  have i: "(1::nat) < 2" by simp
  from shared_extras_column_fails[OF i j a b c, of False] a b show ?thesis by blast
qed

subsection \<open>ApplyModelResult\<close>

lemma foldl_filter:
  "foldl (\<lambda>t p. filter (Q p) t) xs ps = filter (\<lambda>n. \<forall>p\<in>set ps. Q p n) xs"
proof (induction ps arbitrary: xs)
  case Nil
  then show ?case by simp
next
  case (Cons p ps)
  have "filter (\<lambda>n. \<forall>q\<in>set ps. Q q n) (filter (Q p) xs)
      = filter (\<lambda>n. \<forall>q\<in>set (p # ps). Q q n) xs"
    by (induction xs) auto
  with Cons show ?case by simp
qed

text \<open>The rows \<^verbatim>\<open>ApplyModelResult\<close> keeps before it reads the source column.\<close>

lemma ApplyModelResult_unfold:
  "ApplyModelResult_score_notes src True fcp ns ls =
     (let kept = filter (\<lambda>n. \<not> (crhBlocked n \<and> src n = Some CRH) \<and>
                             (\<forall>p\<in>set fcp. cell_eq (fst p n) (snd p))) ns;
          upd = concat (map (\<lambda>n. case src n of None \<Rightarrow> []
                   | Some s \<Rightarrow> [(noteId n, if s = FIRM_REJECT then NMR else s)]) kept)
      in if list_all (\<lambda>u. snd u \<in> {CRH, CRNH, NMR}) upd then Inr (ns, upd, None)
         else Inl StatusAssertion)"
proof -
  have 1: "foldl (\<lambda>t p. filter (\<lambda>n. cell_eq (fst p n) (snd p)) t)
             (filter (\<lambda>n. \<not> (crhBlocked n \<and> src n = Some CRH)) ns) fcp
         = filter (\<lambda>n. \<not> (crhBlocked n \<and> src n = Some CRH) \<and>
                             (\<forall>p\<in>set fcp. cell_eq (fst p n) (snd p))) ns"
    by (simp add: foldl_filter[where Q = "\<lambda>p n. cell_eq (fst p n) (snd p)"] conj_commute)
  have 2: "map (\<lambda>u. (fst u, if snd u = FIRM_REJECT then NMR else snd u))
             (concat (map (\<lambda>n. case src n of None \<Rightarrow> [] | Some s \<Rightarrow> [(noteId n, s)]) xs))
         = concat (map (\<lambda>n. case src n of None \<Rightarrow> []
                   | Some s \<Rightarrow> [(noteId n, if s = FIRM_REJECT then NMR else s)]) xs)" for xs
    by (induction xs) (auto split: option.splits)
  show ?thesis
    by (simp only: ApplyModelResult_score_notes_def Let_def if_True 1 2)
qed

lemma expansion_result:
  "ApplyModelResult_score_notes expansionRatingStatus True []
     [ex_note4, ex_note5, ex_note6, ex_note7] []
   = Inr ([ex_note4, ex_note5, ex_note6, ex_note7], [(5, NMR), (7, CRH)], None)"
  by (simp add: rule_defs blank_note_def ex_note4_def ex_note5_def ex_note6_def ex_note7_def)

text \<open>
  C4, as the code has it. With \<^verbatim>\<open>checkFirmReject\<close> set, \<^verbatim>\<open>ApplyModelResult.score_notes\<close>
  either fails its status assertion or returns \<^verbatim>\<open>noteStats\<close> untouched, no additional
  columns, and updates in which a pair \<open>(i, s)\<close> occurs exactly when some note \<open>i\<close> is not
  excluded (excluded: the source column holds CRH and either \<^verbatim>\<open>coreRatingStatus\<close> is
  FIRM_REJECT or CRNH, or it is missing and \<^verbatim>\<open>expansionRatingStatus\<close> is FIRM_REJECT or
  CRNH), passes every filter pair, has a source status, and \<open>s\<close> is that status with
  FIRM_REJECT rewritten to NMR. Every status of the updates is CRH, CRNH or NMR. The
  rewriting and the assertion are this rule's own; the driver has neither.
\<close>

theorem ApplyModelResult_updates:
  "(case ApplyModelResult_score_notes sourceColumn True filterColumnPairs ns currentLabels of
      Inl e \<Rightarrow> e = StatusAssertion
    | Inr (ns', upd, ac) \<Rightarrow>
        ns' = ns \<and> ac = None
        \<and> (\<forall>i s. (i, s) \<in> set upd \<longleftrightarrow>
              (\<exists>n\<in>set ns. noteId n = i
                 \<and> \<not> (sourceColumn n = Some CRH
                       \<and> (coreRatingStatus n \<in> {Some FIRM_REJECT, Some CRNH}
                            \<or> coreRatingStatus n = None
                               \<and> expansionRatingStatus n \<in> {Some FIRM_REJECT, Some CRNH}))
                 \<and> (\<forall>p\<in>set filterColumnPairs. cell_eq (fst p n) (snd p))
                 \<and> (\<exists>s0. sourceColumn n = Some s0
                           \<and> s = (if s0 = FIRM_REJECT then NMR else s0))))
        \<and> (\<forall>u\<in>set upd. snd u \<in> {CRH, CRNH, NMR}))"
proof -
  let ?kept = "filter (\<lambda>n. \<not> (crhBlocked n \<and> sourceColumn n = Some CRH) \<and>
                 (\<forall>p\<in>set filterColumnPairs. cell_eq (fst p n) (snd p))) ns"
  let ?upd = "concat (map (\<lambda>n. case sourceColumn n of None \<Rightarrow> []
                   | Some s \<Rightarrow> [(noteId n, if s = FIRM_REJECT then NMR else s)]) ?kept)"
  have mem: "(i, s) \<in> set ?upd \<longleftrightarrow>
      (\<exists>n\<in>set ns. noteId n = i
         \<and> \<not> (sourceColumn n = Some CRH
               \<and> (coreRatingStatus n \<in> {Some FIRM_REJECT, Some CRNH}
                    \<or> coreRatingStatus n = None
                       \<and> expansionRatingStatus n \<in> {Some FIRM_REJECT, Some CRNH}))
         \<and> (\<forall>p\<in>set filterColumnPairs. cell_eq (fst p n) (snd p))
         \<and> (\<exists>s0. sourceColumn n = Some s0 \<and> s = (if s0 = FIRM_REJECT then NMR else s0)))"
    for i s
  proof -
    have a: "(i, s) \<in> set (concat (map (\<lambda>n. case sourceColumn n of None \<Rightarrow> []
                   | Some s \<Rightarrow> [(noteId n, if s = FIRM_REJECT then NMR else s)]) xs)) \<longleftrightarrow>
        (\<exists>n\<in>set xs. noteId n = i \<and>
           (\<exists>s0. sourceColumn n = Some s0 \<and> s = (if s0 = FIRM_REJECT then NMR else s0)))"
      for xs
      by (induction xs) (auto split: option.splits)
    have b: "crhBlocked n \<longleftrightarrow>
        (coreRatingStatus n \<in> {Some FIRM_REJECT, Some CRNH}
          \<or> coreRatingStatus n = None
             \<and> expansionRatingStatus n \<in> {Some FIRM_REJECT, Some CRNH})" for n
      by (simp add: crhBlocked_def coreRejects_def expansionRejects_def)
    show ?thesis unfolding a b by auto
  qed
  show ?thesis
  proof (cases "list_all (\<lambda>u. snd u \<in> {CRH, CRNH, NMR}) ?upd")
    case True
    then have r: "ApplyModelResult_score_notes sourceColumn True filterColumnPairs ns currentLabels
        = Inr (ns, ?upd, None)"
      by (simp add: ApplyModelResult_unfold Let_def)
    from True have "\<forall>u\<in>set ?upd. snd u \<in> {CRH, CRNH, NMR}"
      by (simp only: list_all_iff)
    with mem show ?thesis unfolding r by simp
  next
    case False
    then show ?thesis by (simp add: ApplyModelResult_unfold Let_def)
  qed
qed

theorem ApplyModelResult_updates_witness:
  "ApplyModelResult_score_notes expansionRatingStatus True []
     [ex_note4, ex_note5, ex_note6, ex_note7] []
   = Inr ([ex_note4, ex_note5, ex_note6, ex_note7], [(5, NMR), (7, CRH)], None)
   \<and> expansionRatingStatus ex_note4 = Some CRH \<and> coreRatingStatus ex_note4 = Some CRNH
   \<and> (4 :: int, CRH) \<notin> set [(5, NMR), (7, CRH)]
   \<and> expansionRatingStatus ex_note5 = Some FIRM_REJECT
   \<and> (5 :: int, NMR) \<in> set [(5, NMR), (7, CRH)]
   \<and> list_all (\<lambda>u. snd u \<in> {CRH, CRNH, NMR}) [(5 :: int, NMR), (7, CRH)]"
proof -
  note t = ApplyModelResult_updates[where sourceColumn = expansionRatingStatus
      and filterColumnPairs = "[]" and ns = "[ex_note4, ex_note5, ex_note6, ex_note7]"
      and currentLabels = "[]", unfolded expansion_result, simplified]
  have n4: "expansionRatingStatus ex_note4 = Some CRH" "coreRatingStatus ex_note4 = Some CRNH"
    by (simp_all add: ex_note4_def blank_note_def)
  have n5: "expansionRatingStatus ex_note5 = Some FIRM_REJECT"
    by (simp add: ex_note5_def blank_note_def)
  from t have "list_all (\<lambda>u. snd u \<in> {CRH, CRNH, NMR}) [(5 :: int, NMR), (7, CRH)]"
    by simp
  with expansion_result n4 n5 show ?thesis by simp
qed

lemma mf_run_plain:
  "apply_scoring_rules [ex_note1, ex_note2] mf_rules False =
     Inr [out_row ex_note1 FIRM_REJECT ''InitialNMR (v1.0),RejectLowIntercept (v1.0)'' None,
          out_row ex_note2 NMR ''InitialNMR (v1.0)'' None]"
  by (simp add: engine_defs rule_defs ex_defs insert_commute)

text \<open>
  C4, as stated, fails in its last part: the driver is not the place of the rewriting.
  \<^verbatim>\<open>ApplyModelResult.score_notes\<close> itself turns the FIRM_REJECT of note 1 into NMR,
  and \<^verbatim>\<open>apply_scoring_rules\<close> returns the FIRM_REJECT that \<^verbatim>\<open>RejectLowIntercept\<close>
  wrote for the same note.
\<close>

theorem rewriting_is_in_the_rule:
  "ApplyModelResult_score_notes coreRatingStatus True [] [ex_note1, ex_note2] []
     = Inr ([ex_note1, ex_note2], [(1, NMR), (2, CRH)], None)
   \<and> coreRatingStatus ex_note1 = Some FIRM_REJECT
   \<and> map_sum id (map ratingStatus) (apply_scoring_rules [ex_note1, ex_note2] mf_rules False)
     = Inr [FIRM_REJECT, NMR]"
proof -
  have a: "ApplyModelResult_score_notes coreRatingStatus True [] [ex_note1, ex_note2] []
     = Inr ([ex_note1, ex_note2], [(1, NMR), (2, CRH)], None)"
    by (simp add: rule_defs ex_note1_def ex_note2_def blank_note_def)
  have b: "coreRatingStatus ex_note1 = Some FIRM_REJECT"
    by (simp add: ex_note1_def blank_note_def)
  have c: "map_sum id (map ratingStatus) (apply_scoring_rules [ex_note1, ex_note2] mf_rules False)
     = Inr [FIRM_REJECT, NMR]"
    by (simp add: mf_run_plain out_row_def)
  show ?thesis using a b c by blast
qed

subsection \<open>ApplyGroupModelResult\<close>

lemma merge_keys_set: "set (merge_keys xs ys) = set xs \<inter> set ys"
  by (auto simp: merge_keys_def)

lemma distinct_id_mem:
  assumes "distinct (map noteId ns)" and "n \<in> set ns"
  shows "noteId n \<in> noteId ` {m \<in> set ns. P m} \<longleftrightarrow> P n"
proof -
  from assms(1) have "inj_on noteId (set ns)" by (simp add: distinct_map)
  with assms(2) show ?thesis by (auto simp: inj_on_def)
qed

lemma get_value_pair:
  "get_value [in_range c ms ct, in_range e ms et] =
     (case c of
        Some v \<Rightarrow> ms < v \<and> (\<forall>t. ct = Some t \<longrightarrow> v < t)
      | None \<Rightarrow> (case e of
          Some w \<Rightarrow> ms < w \<and> (\<forall>t. et = Some t \<longrightarrow> w < t)
        | None \<Rightarrow> False))"
  by (auto simp: get_value_def in_range_def col_gt_def col_lt_def Let_def split: option.splits)

lemmas group_defs =
  ApplyGroupModelResult_score_notes_def merge_keys_def get_value_def in_range_def
  group_note1_def group_note2_def group_note3_def group_note4_def blank_note_def

lemma group_result:
  "ApplyGroupModelResult_score_notes 13 (Some 0.4) None 0.3
     [group_note1, group_note2, group_note3] [(11, NMR), (12, NMR), (13, CRH)]
   = Inr ([group_note1, group_note2, group_note3], [(11, CRH)], None)"
  by (auto simp: group_defs rule_defs Let_def)

lemma crhBlocked_iff:
  "crhBlocked n \<longleftrightarrow>
     coreRatingStatus n \<in> {Some FIRM_REJECT, Some CRNH}
     \<or> coreRatingStatus n = None \<and> expansionRatingStatus n \<in> {Some FIRM_REJECT, Some CRNH}"
  by (simp add: crhBlocked_def coreRejects_def expansionRejects_def)

lemma ApplyGroupModelResult_raises:
  "ApplyGroupModelResult_score_notes g ct et ms ns ls = Inl KeyError
     \<longleftrightarrow> (\<forall>m\<in>set ns. crhBlocked m)"
  by (simp add: ApplyGroupModelResult_score_notes_def Let_def filter_empty_conv)

text \<open>
  C6. \<^verbatim>\<open>ApplyGroupModelResult.score_notes\<close> on a \<^verbatim>\<open>noteStats\<close> with unique NoteIds.
  When some note is not blocked by the core/expansion reject predicate the rule returns,
  leaves the table untouched, emits only CRH, and updates a note exactly when (a) it is
  not blocked, (b) its group status is CRH and its modeling group is the rule's group
  number, (c) it is currently labelled NMR, and (d) it is actionable: the core intercept,
  when present, is above the safeguard and below the core CRH threshold when one is
  given; when the core intercept is missing the same holds of the expansion intercept;
  when both are missing the note is not actionable. So a note with both intercepts
  missing is never promoted, and a note that is not currently NMR is never touched.
  When every note is blocked no note qualifies and none is promoted: the rule raises
  KeyError instead of returning an empty update.
\<close>

theorem ApplyGroupModelResult_promotes:
  assumes "distinct (map noteId ns)"
  shows "((\<forall>m\<in>set ns. coreRatingStatus m \<in> {Some FIRM_REJECT, Some CRNH}
              \<or> coreRatingStatus m = None
                 \<and> expansionRatingStatus m \<in> {Some FIRM_REJECT, Some CRNH})
          \<longrightarrow> ApplyGroupModelResult_score_notes groupNumber coreCrhThreshold
                expansionCrhThreshold minSafeguardThreshold ns currentLabels = Inl KeyError)
     \<and> ((\<exists>m\<in>set ns. \<not> (coreRatingStatus m \<in> {Some FIRM_REJECT, Some CRNH}
              \<or> coreRatingStatus m = None
                 \<and> expansionRatingStatus m \<in> {Some FIRM_REJECT, Some CRNH}))
          \<longrightarrow> (\<exists>upd. ApplyGroupModelResult_score_notes groupNumber coreCrhThreshold
                  expansionCrhThreshold minSafeguardThreshold ns currentLabels
                  = Inr (ns, upd, None)
             \<and> (\<forall>u\<in>set upd. snd u = CRH)
             \<and> (\<forall>n\<in>set ns.
                  (noteId n \<in> fst ` set upd \<longleftrightarrow>
                     \<not> (coreRatingStatus n \<in> {Some FIRM_REJECT, Some CRNH}
                         \<or> coreRatingStatus n = None
                            \<and> expansionRatingStatus n \<in> {Some FIRM_REJECT, Some CRNH})
                     \<and> groupRatingStatus n = Some CRH \<and> modelingGroup n = Some groupNumber
                     \<and> (noteId n, NMR) \<in> set currentLabels
                     \<and> (case coreNoteIntercept n of
                           Some c \<Rightarrow> minSafeguardThreshold < c
                                     \<and> (\<forall>t. coreCrhThreshold = Some t \<longrightarrow> c < t)
                         | None \<Rightarrow> (case expansionNoteIntercept n of
                             Some e \<Rightarrow> minSafeguardThreshold < e
                                       \<and> (\<forall>t. expansionCrhThreshold = Some t \<longrightarrow> e < t)
                           | None \<Rightarrow> False)))
                  \<and> (coreNoteIntercept n = None \<and> expansionNoteIntercept n = None
                       \<longrightarrow> noteId n \<notin> fst ` set upd)
                  \<and> ((noteId n, NMR) \<notin> set currentLabels
                       \<longrightarrow> noteId n \<notin> fst ` set upd))))"
proof (intro conjI impI)
  assume "\<forall>m\<in>set ns. coreRatingStatus m \<in> {Some FIRM_REJECT, Some CRNH}
              \<or> coreRatingStatus m = None
                 \<and> expansionRatingStatus m \<in> {Some FIRM_REJECT, Some CRNH}"
  then have "\<forall>m\<in>set ns. crhBlocked m" by (simp only: crhBlocked_iff)
  then show "ApplyGroupModelResult_score_notes groupNumber coreCrhThreshold
                expansionCrhThreshold minSafeguardThreshold ns currentLabels = Inl KeyError"
    by (simp only: ApplyGroupModelResult_raises)
next
  let ?act = "\<lambda>m. get_value
      [in_range (coreNoteIntercept m) minSafeguardThreshold coreCrhThreshold,
       in_range (expansionNoteIntercept m) minSafeguardThreshold expansionCrhThreshold]"
  let ?prob = "\<lambda>m. groupRatingStatus m = Some CRH \<and> modelingGroup m = Some groupNumber"
  let ?ns1 = "filter (\<lambda>m. \<not> crhBlocked m) ns"
  let ?ids = "merge_keys (merge_keys (map noteId (filter ?prob ?ns1))
                 (map fst (filter (\<lambda>l. snd l = NMR) currentLabels)))
               (map noteId (filter ?act ?ns1))"
  let ?upd = "map (\<lambda>i. (i, CRH)) ?ids"
  assume "\<exists>m\<in>set ns. \<not> (coreRatingStatus m \<in> {Some FIRM_REJECT, Some CRNH}
              \<or> coreRatingStatus m = None
                 \<and> expansionRatingStatus m \<in> {Some FIRM_REJECT, Some CRNH})"
  then have "\<exists>m\<in>set ns. \<not> crhBlocked m" by (simp only: crhBlocked_iff)
  then have ne: "?ns1 \<noteq> []" by (simp add: filter_empty_conv)
  have r: "ApplyGroupModelResult_score_notes groupNumber coreCrhThreshold
            expansionCrhThreshold minSafeguardThreshold ns currentLabels = Inr (ns, ?upd, None)"
    using ne by (simp add: ApplyGroupModelResult_score_notes_def Let_def)
  have all: "\<forall>u\<in>set ?upd. snd u = CRH" by auto
  have fst_upd: "fst ` set ?upd = set ?ids" by force
  have l: "i \<in> set (map fst (filter (\<lambda>l. snd l = NMR) currentLabels))
       \<longleftrightarrow> (i, NMR) \<in> set currentLabels" for i
    by force
  have per_note: "\<forall>n\<in>set ns.
     (noteId n \<in> fst ` set ?upd \<longleftrightarrow>
          \<not> (coreRatingStatus n \<in> {Some FIRM_REJECT, Some CRNH}
              \<or> coreRatingStatus n = None
                 \<and> expansionRatingStatus n \<in> {Some FIRM_REJECT, Some CRNH})
          \<and> groupRatingStatus n = Some CRH \<and> modelingGroup n = Some groupNumber
          \<and> (noteId n, NMR) \<in> set currentLabels
          \<and> (case coreNoteIntercept n of
                Some c \<Rightarrow> minSafeguardThreshold < c \<and> (\<forall>t. coreCrhThreshold = Some t \<longrightarrow> c < t)
              | None \<Rightarrow> (case expansionNoteIntercept n of
                  Some e \<Rightarrow> minSafeguardThreshold < e
                            \<and> (\<forall>t. expansionCrhThreshold = Some t \<longrightarrow> e < t)
                | None \<Rightarrow> False)))
     \<and> (coreNoteIntercept n = None \<and> expansionNoteIntercept n = None
          \<longrightarrow> noteId n \<notin> fst ` set ?upd)
     \<and> ((noteId n, NMR) \<notin> set currentLabels \<longrightarrow> noteId n \<notin> fst ` set ?upd)"
  proof (rule ballI)
    fix n
    assume mem: "n \<in> set ns"
    have p: "noteId n \<in> set (map noteId (filter ?prob ?ns1)) \<longleftrightarrow> \<not> crhBlocked n \<and> ?prob n"
      using distinct_id_mem[OF assms mem, of "\<lambda>m. \<not> crhBlocked m \<and> ?prob m"]
      by (simp add: conj_commute cong: conj_cong)
    have a: "noteId n \<in> set (map noteId (filter ?act ?ns1)) \<longleftrightarrow> \<not> crhBlocked n \<and> ?act n"
      using distinct_id_mem[OF assms mem, of "\<lambda>m. \<not> crhBlocked m \<and> ?act m"]
      by (simp add: conj_commute cong: conj_cong)
    have iff: "noteId n \<in> fst ` set ?upd \<longleftrightarrow>
        \<not> crhBlocked n \<and> ?prob n \<and> (noteId n, NMR) \<in> set currentLabels \<and> ?act n"
      unfolding fst_upd merge_keys_set Int_iff p a l by blast
    have both_missing: "coreNoteIntercept n = None \<and> expansionNoteIntercept n = None
        \<longrightarrow> \<not> ?act n"
      by (simp add: get_value_pair)
    have c3: "noteId n \<in> fst ` set ?upd \<longleftrightarrow>
            \<not> (coreRatingStatus n \<in> {Some FIRM_REJECT, Some CRNH}
                \<or> coreRatingStatus n = None
                   \<and> expansionRatingStatus n \<in> {Some FIRM_REJECT, Some CRNH})
            \<and> groupRatingStatus n = Some CRH \<and> modelingGroup n = Some groupNumber
            \<and> (noteId n, NMR) \<in> set currentLabels
            \<and> (case coreNoteIntercept n of
                  Some c \<Rightarrow> minSafeguardThreshold < c \<and> (\<forall>t. coreCrhThreshold = Some t \<longrightarrow> c < t)
                | None \<Rightarrow> (case expansionNoteIntercept n of
                    Some e \<Rightarrow> minSafeguardThreshold < e
                              \<and> (\<forall>t. expansionCrhThreshold = Some t \<longrightarrow> e < t)
                  | None \<Rightarrow> False))"
      using iff unfolding crhBlocked_iff get_value_pair by blast
    have c4: "coreNoteIntercept n = None \<and> expansionNoteIntercept n = None
            \<longrightarrow> noteId n \<notin> fst ` set ?upd"
      using iff both_missing by blast
    have c5: "(noteId n, NMR) \<notin> set currentLabels \<longrightarrow> noteId n \<notin> fst ` set ?upd"
      using iff by blast
    from c3 c4 c5
    show "(noteId n \<in> fst ` set ?upd \<longleftrightarrow>
          \<not> (coreRatingStatus n \<in> {Some FIRM_REJECT, Some CRNH}
              \<or> coreRatingStatus n = None
                 \<and> expansionRatingStatus n \<in> {Some FIRM_REJECT, Some CRNH})
          \<and> groupRatingStatus n = Some CRH \<and> modelingGroup n = Some groupNumber
          \<and> (noteId n, NMR) \<in> set currentLabels
          \<and> (case coreNoteIntercept n of
                Some c \<Rightarrow> minSafeguardThreshold < c \<and> (\<forall>t. coreCrhThreshold = Some t \<longrightarrow> c < t)
              | None \<Rightarrow> (case expansionNoteIntercept n of
                  Some e \<Rightarrow> minSafeguardThreshold < e
                            \<and> (\<forall>t. expansionCrhThreshold = Some t \<longrightarrow> e < t)
                | None \<Rightarrow> False)))
     \<and> (coreNoteIntercept n = None \<and> expansionNoteIntercept n = None
          \<longrightarrow> noteId n \<notin> fst ` set ?upd)
     \<and> ((noteId n, NMR) \<notin> set currentLabels \<longrightarrow> noteId n \<notin> fst ` set ?upd)"
      by blast
  qed
  show "\<exists>upd. ApplyGroupModelResult_score_notes groupNumber coreCrhThreshold
                  expansionCrhThreshold minSafeguardThreshold ns currentLabels
                  = Inr (ns, upd, None)
             \<and> (\<forall>u\<in>set upd. snd u = CRH)
             \<and> (\<forall>n\<in>set ns.
                  (noteId n \<in> fst ` set upd \<longleftrightarrow>
                     \<not> (coreRatingStatus n \<in> {Some FIRM_REJECT, Some CRNH}
                         \<or> coreRatingStatus n = None
                            \<and> expansionRatingStatus n \<in> {Some FIRM_REJECT, Some CRNH})
                     \<and> groupRatingStatus n = Some CRH \<and> modelingGroup n = Some groupNumber
                     \<and> (noteId n, NMR) \<in> set currentLabels
                     \<and> (case coreNoteIntercept n of
                           Some c \<Rightarrow> minSafeguardThreshold < c
                                     \<and> (\<forall>t. coreCrhThreshold = Some t \<longrightarrow> c < t)
                         | None \<Rightarrow> (case expansionNoteIntercept n of
                             Some e \<Rightarrow> minSafeguardThreshold < e
                                       \<and> (\<forall>t. expansionCrhThreshold = Some t \<longrightarrow> e < t)
                           | None \<Rightarrow> False)))
                  \<and> (coreNoteIntercept n = None \<and> expansionNoteIntercept n = None
                       \<longrightarrow> noteId n \<notin> fst ` set upd)
                  \<and> ((noteId n, NMR) \<notin> set currentLabels
                       \<longrightarrow> noteId n \<notin> fst ` set upd))"
    by (intro exI[of _ ?upd] conjI) (fact r, fact all, fact per_note)
qed

theorem ApplyGroupModelResult_promotes_witness:
  "ApplyGroupModelResult_score_notes 13 (Some 0.4) None 0.3
     [group_note1, group_note2, group_note3] [(11, NMR), (12, NMR), (13, CRH)]
   = Inr ([group_note1, group_note2, group_note3], [(11, CRH)], None)
   \<and> distinct (map noteId [group_note1, group_note2, group_note3])
   \<and> noteId group_note1 \<in> fst ` set [(11 :: int, CRH)]
   \<and> coreNoteIntercept group_note2 = None \<and> expansionNoteIntercept group_note2 = None
   \<and> noteId group_note2 \<notin> fst ` set [(11 :: int, CRH)]
   \<and> (noteId group_note3, NMR) \<notin> set [(11, NMR), (12, NMR), (13, CRH)]
   \<and> noteId group_note3 \<notin> fst ` set [(11 :: int, CRH)]
   \<and> coreRatingStatus group_note4 = Some CRNH
   \<and> ApplyGroupModelResult_score_notes 13 (Some 0.4) None 0.3 [group_note4] [(14, NMR)]
     = Inl KeyError"
proof -
  let ?ns = "[group_note1, group_note2, group_note3]"
  let ?ls = "[(11, NMR), (12, NMR), (13, CRH)] :: labels"
  have d: "distinct (map noteId ?ns)" by (simp add: group_defs)
  have u: "\<exists>m\<in>set ?ns. \<not> (coreRatingStatus m \<in> {Some FIRM_REJECT, Some CRNH}
              \<or> coreRatingStatus m = None
                 \<and> expansionRatingStatus m \<in> {Some FIRM_REJECT, Some CRNH})"
    by (simp add: group_defs)
  have f1: "noteId group_note1 \<in> fst ` set [(11 :: int, CRH)]"
    by (simp add: group_defs)
  have n2: "coreNoteIntercept group_note2 = None \<and> expansionNoteIntercept group_note2 = None"
    by (simp add: group_defs)
  have n3: "(noteId group_note3, NMR) \<notin> set ?ls" by (simp add: group_defs)
  note t = ApplyGroupModelResult_promotes[OF d, of 13 "Some 0.4" None "0.3" ?ls]
  from t[THEN conjunct2, THEN mp, OF u]
  obtain upd where r: "ApplyGroupModelResult_score_notes 13 (Some 0.4) None 0.3 ?ns ?ls
        = Inr (?ns, upd, None)"
    and per: "\<forall>n\<in>set ?ns.
          (coreNoteIntercept n = None \<and> expansionNoteIntercept n = None
            \<longrightarrow> noteId n \<notin> fst ` set upd)
          \<and> ((noteId n, NMR) \<notin> set ?ls \<longrightarrow> noteId n \<notin> fst ` set upd)"
    by blast
  from r have upd: "upd = [(11, CRH)]" unfolding group_result by simp
  from per n2 have f2: "noteId group_note2 \<notin> fst ` set [(11 :: int, CRH)]"
    unfolding upd by simp
  from per n3 have f3: "noteId group_note3 \<notin> fst ` set [(11 :: int, CRH)]"
    unfolding upd by simp
  have d4: "distinct (map noteId [group_note4])" by simp
  have b4: "coreRatingStatus group_note4 = Some CRNH" by (simp add: group_defs)
  then have all4: "\<forall>m\<in>set [group_note4]. coreRatingStatus m \<in> {Some FIRM_REJECT, Some CRNH}
              \<or> coreRatingStatus m = None
                 \<and> expansionRatingStatus m \<in> {Some FIRM_REJECT, Some CRNH}"
    by simp
  from ApplyGroupModelResult_promotes[OF d4, of 13 "Some 0.4" None "0.3" "[(14, NMR)]",
      THEN conjunct1, THEN mp, OF all4]
  have k: "ApplyGroupModelResult_score_notes 13 (Some 0.4) None 0.3 [group_note4] [(14, NMR)]
     = Inl KeyError" .
  from group_result d f1 n2 f2 n3 f3 b4 k show ?thesis by blast
qed

subsection \<open>NmrDueToMinStableCrhTime\<close>

text \<open>The four masked assignments of the rule, on one row of its working table.\<close>

lemma nmr_row:
  fixes T :: "int option" and i :: int and s :: status
  defines "r0 \<equiv> \<lparr>nId = i, ts = T, statusNow = s, statusNew = None, updatedTs = T\<rparr>"
  shows "(\<lambda>r. if statusNow r \<noteq> CRH \<and> ts_exists (ts r) then r\<lparr>updatedTs := Some (- 1)\<rparr> else r)
      ((\<lambda>r. if statusNow r = CRH \<and> ts_exists (ts r) \<and>
                (case ts r of None \<Rightarrow> False | Some t \<Rightarrow> now - t < thr * 60 * 1000)
             then r\<lparr>statusNew := Some NMR\<rparr> else r)
       ((\<lambda>r. if statusNow r = CRH \<and> ts_exists (ts r) \<and>
                (case ts r of None \<Rightarrow> False | Some t \<Rightarrow> thr * 60 * 1000 \<le> now - t)
              then r\<lparr>statusNew := Some CRH, updatedTs := Some (- 1)\<rparr> else r)
        ((\<lambda>r. if statusNow r = CRH \<and> (ts r = None \<or> col_le (ts r) 0)
               then r\<lparr>statusNew := Some NMR, updatedTs := Some now\<rparr> else r) r0)))
     = \<lparr>nId = i, ts = T, statusNow = s,
        statusNew = (if s = CRH then Some (if flips_to_nmr now thr s T then NMR else CRH) else None),
        updatedTs = (if s = CRH \<or> ts_exists T then Some (updated_timestamp now thr s T) else T)\<rparr>"
proof (cases "s = CRH")
  case True
  note defs = r0_def True flips_to_nmr_def updated_timestamp_def ts_exists_def
         col_le_def col_gt_def
  show ?thesis
  proof (cases T)
    case None
    then show ?thesis by (simp add: defs)
  next
    case (Some t)
    show ?thesis
    proof (cases "t \<le> 0")
      case True
      with Some show ?thesis by (simp add: defs)
    next
      case neg: False
      show ?thesis
      proof (cases "thr * 60 * 1000 \<le> now - t")
        case True
        with Some neg show ?thesis by (simp add: defs)
      next
        case False
        with Some neg show ?thesis by (simp add: defs)
      qed
    qed
  qed
next
  case False
  then show ?thesis
    by (cases T)
      (simp_all add: r0_def flips_to_nmr_def updated_timestamp_def ts_exists_def
         col_le_def col_gt_def)
qed


lemma nmr_unfold:
  "NmrDueToMinStableCrhTime_score_notes now thr ns ls =
     (if \<not> distinct (map (\<lambda>r. (noteId (fst r), timestampMillisOfNmrDueToMinStableCrhTime (fst r),
                               snd r)) (considered ns ls))
      then Inl DuplicateRows
      else Inr (ns,
        map (\<lambda>r. (noteId (fst r), NMR))
          (filter (\<lambda>r. flips_to_nmr now thr (snd r)
                     (timestampMillisOfNmrDueToMinStableCrhTime (fst r))) (considered ns ls)),
        Some \<lparr>cols = [''updatedTimestampMillisOfNmrDueToMinStableCrhTime''],
              rows = map (\<lambda>r. (noteId (fst r),
                       [IntCell (updated_timestamp now thr (snd r)
                          (timestampMillisOfNmrDueToMinStableCrhTime (fst r)))]))
                     (considered ns ls)\<rparr>))"
proof -
  let ?T = "\<lambda>r :: note_row \<times> status. timestampMillisOfNmrDueToMinStableCrhTime (fst r)"
  let ?final = "\<lambda>r. \<lparr>nId = noteId (fst r), ts = ?T r, statusNow = snd r,
        statusNew = (if snd r = CRH
                     then Some (if flips_to_nmr now thr (snd r) (?T r) then NMR else CRH) else None),
        updatedTs = (if snd r = CRH \<or> ts_exists (?T r)
                     then Some (updated_timestamp now thr (snd r) (?T r)) else ?T r)\<rparr>"
  let ?sel = "considered ns ls"
  have upd: "concat (map (\<lambda>r. case statusNew r of None \<Rightarrow> [] | Some s \<Rightarrow> [(nId r, s)])
               (filter (\<lambda>r. statusNow r = CRH \<and> statusNew r = Some NMR) (map ?final xs)))
           = map (\<lambda>r. (noteId (fst r), NMR)) (filter (\<lambda>r. flips_to_nmr now thr (snd r) (?T r)) xs)"
    for xs
    by (induction xs) (auto simp: flips_to_nmr_def)
  have c: "\<forall>r\<in>set ?sel. snd r = CRH \<or> ts_exists (?T r)"
    by (simp add: considered_def)
  have rws: "map (\<lambda>r. (nId r, [case updatedTs r of None \<Rightarrow> NaN | Some t \<Rightarrow> IntCell t]))
               (map ?final ?sel)
         = map (\<lambda>r. (noteId (fst r), [IntCell (updated_timestamp now thr (snd r) (?T r))])) ?sel"
    using c by (simp cong: map_cong)
  have d: "map (\<lambda>r. (nId r, ts r, statusNow r))
             (map (\<lambda>r. \<lparr>nId = noteId (fst r), ts = ?T r, statusNow = snd r, statusNew = None,
                          updatedTs = ?T r\<rparr>) xs)
         = map (\<lambda>r. (noteId (fst r), ?T r, snd r)) xs" for xs :: "(note_row \<times> status) list"
    by simp
  show ?thesis
    unfolding NmrDueToMinStableCrhTime_score_notes_def Let_def considered_def[symmetric]
    apply (simp only: d)
    apply (simp only: loc_assign_def map_map comp_def nmr_row)
    apply (simp only: upd rws[unfolded map_map comp_def] map_map[symmetric] comp_def)
    done
qed






lemma considered_mem:
  "(m, s) \<in> set (considered ns ls) \<longleftrightarrow>
     m \<in> set ns \<and> currentLabel m \<noteq> Some CRH \<and> (noteId m, s) \<in> set ls
     \<and> (s = CRH \<or> ts_exists (timestampMillisOfNmrDueToMinStableCrhTime m))"
  by (auto simp: considered_def merge_inner_mem)




lemma map_key_fst:
  "k0 \<in> fst ` set (map (\<lambda>r. (k r, g r)) xs) \<longleftrightarrow> (\<exists>r\<in>set xs. k r = k0)"
  by (induction xs) auto


lemma stable_result:
  "NmrDueToMinStableCrhTime_score_notes 2800000 30 stable_notes stable_labels
     = Inr (stable_notes, [(21, NMR), (23, NMR)], Some stable_extras)"
  by (simp add: nmr_unfold considered_def merge_inner_def flips_to_nmr_def
        updated_timestamp_def ts_exists_def col_gt_def stable_notes_def stable_labels_def
        stable_extras_def blank_note_def)



text \<open>
  C10. A note that is not in \<^verbatim>\<open>currentLabels\<close> gets neither a status update nor an
  extras row from \<^verbatim>\<open>NmrDueToMinStableCrhTime.score_notes\<close>, whatever its timestamp.
\<close>

theorem unlabelled_note_not_considered:
  assumes "NmrDueToMinStableCrhTime_score_notes now thr ns ls = Inr (ns', upd, ac)"
    and "i \<notin> fst ` set ls"
  shows "i \<notin> fst ` set upd \<and> (\<forall>f. ac = Some f \<longrightarrow> i \<notin> fst ` set (rows f))"
proof -
  have k: "noteId (fst r) \<in> fst ` set ls" if "r \<in> set (considered ns ls)" for r
  proof -
    obtain m s where r: "r = (m, s)" by (cases r)
    with that have "(noteId m, s) \<in> set ls" by (simp add: considered_mem)
    then show ?thesis unfolding r by force
  qed
  from assms(1) have u: "upd = map (\<lambda>r. (noteId (fst r), NMR))
        (filter (\<lambda>r. flips_to_nmr now thr (snd r)
           (timestampMillisOfNmrDueToMinStableCrhTime (fst r))) (considered ns ls))"
    and a: "ac = Some \<lparr>cols = [''updatedTimestampMillisOfNmrDueToMinStableCrhTime''],
              rows = map (\<lambda>r. (noteId (fst r),
                       [IntCell (updated_timestamp now thr (snd r)
                          (timestampMillisOfNmrDueToMinStableCrhTime (fst r)))]))
                     (considered ns ls)\<rparr>"
    by (auto simp: nmr_unfold split: if_splits)
  have "i \<notin> fst ` set upd" unfolding u map_key_fst using k assms(2) by auto
  moreover have "\<forall>f. ac = Some f \<longrightarrow> i \<notin> fst ` set (rows f)"
    unfolding a using k assms(2)
      map_key_fst[of i "\<lambda>r. noteId (fst r)" _ "considered ns ls"] by auto
  ultimately show ?thesis by blast
qed

theorem unlabelled_note_not_considered_witness:
  "NmrDueToMinStableCrhTime_score_notes 2800000 30 stable_notes stable_labels
     = Inr (stable_notes, [(21, NMR), (23, NMR)], Some stable_extras)
   \<and> timestampMillisOfNmrDueToMinStableCrhTime (stable_notes ! 5) = Some 5
   \<and> noteId (stable_notes ! 5) = 26
   \<and> 26 \<notin> fst ` set stable_labels
   \<and> 26 \<notin> fst ` set [(21 :: int, NMR), (23, NMR)]
   \<and> 26 \<notin> fst ` set (rows stable_extras)"
proof -
  have n: "26 \<notin> fst ` set stable_labels" by (simp add: stable_labels_def)
  have t: "timestampMillisOfNmrDueToMinStableCrhTime (stable_notes ! 5) = Some 5"
    "noteId (stable_notes ! 5) = 26"
    by (simp_all add: stable_notes_def blank_note_def)
  from unlabelled_note_not_considered[OF stable_result n]
  have "26 \<notin> fst ` set [(21 :: int, NMR), (23, NMR)] \<and> 26 \<notin> fst ` set (rows stable_extras)"
    by blast
  with stable_result n t show ?thesis by blast
qed

subsection \<open>Frame of the rules\<close>





end
